theory Spec2Isabelle
  imports Main
begin

section \<open>Data model\<close>

text \<open>
  The repository wraps the Bring! shopping-list service: \<open>bring_client.py\<close> holds the
  connection and the cache of the list catalog, \<open>bring_integration.py\<close> resolves list
  names and delegates the item operations. Exceptions are values: the \<open>ValueError\<close>s the
  integration raises itself, the \<open>KeyError\<close> of \<open>lst['name']\<close> on an entry without a name,
  the failures of the remote service (which pass through unchanged), and the
  \<open>AttributeError\<close> of calling a method on \<open>self.client\<close> while it is \<open>None\<close>.
\<close>

datatype exn = ValueError string | KeyError string | ServiceError string | AttributeError

text \<open>
  A Python \<open>str\<close> is kept as the list of the bytes of its UTF-8 encoding: the empty
  string is the empty list, \<open>+\<close> is \<open>@\<close> and \<open>==\<close> is equality. The code takes no length,
  index or slice of a string.
\<close>

text \<open>
  One entry of the catalog, as the service returns it. The code reads \<open>lst['listUuid']\<close>
  unguarded and \<open>lst.get("name", "")\<close> with a default, so the identifier is a field that is
  always there and the name may be missing. An entry is therefore a non-empty dict, which
  Python's \<open>if lst:\<close> takes as true.
\<close>

record bring_list =
  listUuid :: string
  name :: "string option"
  theme :: "string option"

text \<open>Python values as they occur in the batch handed to \<open>add_items\<close>.\<close>

datatype pyval =
    PyNone
  | PyStr string
  | PyInt int
  | PyList "pyval list"
  | PyDict "(string \<times> pyval) list"

type_synonym pydict = "(string \<times> pyval) list"

record contents =
  purchase :: "(string \<times> string) list"
  recently :: "(string \<times> string) list"

text \<open>The requests sent to the remote service, named after the methods of the vendor library.\<close>

datatype call =
    Login
  | Load_lists
  | Get_list string
  | Save_item string string string
  | Complete_item string string
  | Remove_item string string
  | Batch_update_list string "pydict list"

text \<open>
  What the code calls and the repository does not define. The remote service is an
  external collaborator: its answer to a request may depend on every request made
  before; \<open>Some msg\<close> and \<open>Inl msg\<close> are a raised failure. \<open>str_lower\<close> is the built-in
  \<open>str.lower()\<close> of the Python runtime, which folds every cased character of Unicode by
  the tables of the interpreter in use; nothing is assumed of it, so what is proved
  holds for each of them.
\<close>

record env =
  login :: "call list \<Rightarrow> string option"
  load_lists :: "call list \<Rightarrow> string + (string \<times> bring_list list) list"
  get_list :: "call list \<Rightarrow> string \<Rightarrow> string + contents"
  update :: "call list \<Rightarrow> call \<Rightarrow> string option"
  str_lower :: "string \<Rightarrow> string"

text \<open>
  What lies outside the Python objects: the requests made so far and the number of HTTP
  sessions opened (\<open>aiohttp.ClientSession()\<close>) and closed (\<open>session.close()\<close>).
\<close>

record world =
  calls :: "call list"
  opened :: nat
  closed :: nat

text \<open>
  \<open>BringClient\<close>. The attributes \<open>session\<close> and \<open>bring\<close> start as \<open>None\<close>, are assigned
  together in \<open>connect\<close> and are reset together in \<open>disconnect\<close>, and nothing else assigns
  them: the one flag \<open>connected\<close> says that both are set, and is what the tests
  \<open>self.session is None\<close>, \<open>if self.session\<close> and \<open>if not self.bring\<close> read.
  \<open>lists_cache\<close> is \<open>_lists_cache\<close>.
\<close>

record bring_client =
  connected :: bool
  lists_cache :: "bring_list list option"

text \<open>\<open>BringIntegration\<close>: \<open>default_list_uuid\<close> is \<open>_default_list_uuid\<close>.\<close>

record bring_integration =
  client :: "bring_client option"
  default_list_uuid :: "string option"

section \<open>Dicts\<close>

text \<open>\<open>d.get(k, default)\<close> on a dict kept as an association list.\<close>

definition dict_get :: "(string \<times> 'v) list \<Rightarrow> string \<Rightarrow> 'v \<Rightarrow> 'v" where
  "dict_get d k dflt = (case map_of d k of None \<Rightarrow> dflt | Some v \<Rightarrow> v)"

text \<open>\<open>lst.get("name", "")\<close>.\<close>

definition get_name :: "bring_list \<Rightarrow> string" where
  "get_name lst = (case name lst of None \<Rightarrow> [] | Some v \<Rightarrow> v)"

section \<open>bring_client.py\<close>

definition new_client :: bring_client where
  "new_client = \<lparr>connected = False, lists_cache = None\<rparr>"

definition log_call :: "call \<Rightarrow> world \<Rightarrow> world" where
  "log_call k w = w\<lparr>calls := calls w @ [k]\<rparr>"

text \<open>
  \<open>connect\<close>: the session is opened and both attributes are set before the login is
  awaited, so the client stays connected when the login raises.
\<close>

definition client_connect ::
  "env \<Rightarrow> bring_client \<Rightarrow> world \<Rightarrow> (exn + unit) \<times> bring_client \<times> world" where
  "client_connect r c w =
     (if \<not> connected c then
        (let c1 = c\<lparr>connected := True\<rparr>;
             w1 = w\<lparr>opened := Suc (opened w)\<rparr>
         in case login r (calls w1) of
              Some msg \<Rightarrow> (Inl (ServiceError msg), c1, log_call Login w1)
            | None \<Rightarrow> (Inr (), c1, log_call Login w1))
      else (Inr (), c, w))"

definition client_disconnect :: "bring_client \<Rightarrow> world \<Rightarrow> bring_client \<times> world" where
  "client_disconnect c w =
     (if connected c then (c\<lparr>connected := False\<rparr>, w\<lparr>closed := Suc (closed w)\<rparr>)
      else (c, w))"

text \<open>The guard \<open>if not self.bring: await self.connect()\<close> that opens every client method.\<close>

definition ensure_connected ::
  "env \<Rightarrow> bring_client \<Rightarrow> world \<Rightarrow> (exn + unit) \<times> bring_client \<times> world" where
  "ensure_connected r c w = (if \<not> connected c then client_connect r c w else (Inr (), c, w))"

text \<open>
  \<open>get_lists\<close>: the catalog is fetched when \<open>_lists_cache is None or force_refresh\<close>; a
  response without the field \<open>lists\<close> gives the empty catalog.
\<close>

definition fetch_lists ::
  "env \<Rightarrow> bring_client \<Rightarrow> world \<Rightarrow> (exn + bring_list list) \<times> bring_client \<times> world" where
  "fetch_lists r c w =
     (case load_lists r (calls w) of
        Inl msg \<Rightarrow> (Inl (ServiceError msg), c, log_call Load_lists w)
      | Inr response \<Rightarrow>
          (let ls = dict_get response ''lists'' [] in
             (Inr ls, c\<lparr>lists_cache := Some ls\<rparr>, log_call Load_lists w)))"

definition client_get_lists ::
  "env \<Rightarrow> bool \<Rightarrow> bring_client \<Rightarrow> world \<Rightarrow>
     (exn + bring_list list) \<times> bring_client \<times> world" where
  "client_get_lists r force_refresh c w =
     (case ensure_connected r c w of
        (Inl e, c1, w1) \<Rightarrow> (Inl e, c1, w1)
      | (Inr _, c1, w1) \<Rightarrow>
          (case lists_cache c1 of
             None \<Rightarrow> fetch_lists r c1 w1
           | Some cached \<Rightarrow>
               if force_refresh then fetch_lists r c1 w1 else (Inr cached, c1, w1)))"

text \<open>
  The loop of \<open>get_list_by_name\<close>: the first entry with
  \<open>lst.get("name", "").lower() == name.lower()\<close>, where \<open>lower\<close> is the runtime's
  \<open>str.lower()\<close>.
\<close>

fun first_by_name ::
  "(string \<Rightarrow> string) \<Rightarrow> string \<Rightarrow> bring_list list \<Rightarrow> bring_list option" where
  "first_by_name lower n [] = None"
| "first_by_name lower n (lst # rest) =
     (if lower (get_name lst) = lower n then Some lst else first_by_name lower n rest)"

definition client_get_list_by_name ::
  "env \<Rightarrow> string \<Rightarrow> bring_client \<Rightarrow> world \<Rightarrow>
     (exn + bring_list option) \<times> bring_client \<times> world" where
  "client_get_list_by_name r n c w =
     (case client_get_lists r False c w of
        (Inl e, c1, w1) \<Rightarrow> (Inl e, c1, w1)
      | (Inr ls, c1, w1) \<Rightarrow> (Inr (first_by_name (str_lower r) n ls), c1, w1))"

text \<open>
  The item methods. Each one connects first when it has to, makes its request and
  returns what the service returned (\<open>get_items\<close>) or \<open>True\<close>; a failure of the service
  propagates. \<open>batch_add_items\<close> always passes \<open>BringItemOperation.ADD\<close>, which is left out
  of the logged request.
\<close>

definition client_get_items ::
  "env \<Rightarrow> string \<Rightarrow> bring_client \<Rightarrow> world \<Rightarrow> (exn + contents) \<times> bring_client \<times> world" where
  "client_get_items r list_uuid c w =
     (case ensure_connected r c w of
        (Inl e, c1, w1) \<Rightarrow> (Inl e, c1, w1)
      | (Inr _, c1, w1) \<Rightarrow>
          (case get_list r (calls w1) list_uuid of
             Inl msg \<Rightarrow> (Inl (ServiceError msg), c1, log_call (Get_list list_uuid) w1)
           | Inr items \<Rightarrow> (Inr items, c1, log_call (Get_list list_uuid) w1)))"

definition send_update ::
  "env \<Rightarrow> call \<Rightarrow> bring_client \<Rightarrow> world \<Rightarrow> (exn + bool) \<times> bring_client \<times> world" where
  "send_update r k c w =
     (case ensure_connected r c w of
        (Inl e, c1, w1) \<Rightarrow> (Inl e, c1, w1)
      | (Inr _, c1, w1) \<Rightarrow>
          (case update r (calls w1) k of
             Some msg \<Rightarrow> (Inl (ServiceError msg), c1, log_call k w1)
           | None \<Rightarrow> (Inr True, c1, log_call k w1)))"

definition client_add_item ::
  "env \<Rightarrow> string \<Rightarrow> string \<Rightarrow> string \<Rightarrow> bring_client \<Rightarrow> world \<Rightarrow>
     (exn + bool) \<times> bring_client \<times> world" where
  "client_add_item r list_uuid item_name specification =
     send_update r (Save_item list_uuid item_name specification)"

definition client_complete_item ::
  "env \<Rightarrow> string \<Rightarrow> string \<Rightarrow> bring_client \<Rightarrow> world \<Rightarrow>
     (exn + bool) \<times> bring_client \<times> world" where
  "client_complete_item r list_uuid item_name = send_update r (Complete_item list_uuid item_name)"

definition client_remove_item ::
  "env \<Rightarrow> string \<Rightarrow> string \<Rightarrow> bring_client \<Rightarrow> world \<Rightarrow>
     (exn + bool) \<times> bring_client \<times> world" where
  "client_remove_item r list_uuid item_name = send_update r (Remove_item list_uuid item_name)"

definition client_batch_add_items ::
  "env \<Rightarrow> string \<Rightarrow> pydict list \<Rightarrow> bring_client \<Rightarrow> world \<Rightarrow>
     (exn + bool) \<times> bring_client \<times> world" where
  "client_batch_add_items r list_uuid items = send_update r (Batch_update_list list_uuid items)"

section \<open>bring_integration.py\<close>

text \<open>
  The constructor's check of the credentials is not modelled: an integration object
  exists only when both were given.
\<close>

definition new_integration :: bring_integration where
  "new_integration = \<lparr>client = None, default_list_uuid = None\<rparr>"

text \<open>
  \<open>initialize\<close> assigns \<open>self.client\<close> before it awaits \<open>connect\<close>, so the client stays
  assigned when \<open>connect\<close> raises.
\<close>

definition initialize ::
  "env \<Rightarrow> bring_integration \<Rightarrow> world \<Rightarrow> (exn + unit) \<times> bring_integration \<times> world" where
  "initialize r s w =
     (case client s of
        None \<Rightarrow>
          (case client_connect r new_client w of
             (res, c1, w1) \<Rightarrow> (res, s\<lparr>client := Some c1\<rparr>, w1))
      | Some c \<Rightarrow> (Inr (), s, w))"

definition cleanup :: "bring_integration \<Rightarrow> world \<Rightarrow> bring_integration \<times> world" where
  "cleanup s w =
     (case client s of
        Some c \<Rightarrow> (case client_disconnect c w of (c1, w1) \<Rightarrow> (s\<lparr>client := None\<rparr>, w1))
      | None \<Rightarrow> (s, w))"

text \<open>
  A method call \<open>await self.client.m(...)\<close>: the client object is changed in place; with
  \<open>self.client\<close> unset the attribute access raises.
\<close>

definition on_client ::
  "(bring_client \<Rightarrow> world \<Rightarrow> (exn + 'a) \<times> bring_client \<times> world) \<Rightarrow>
     bring_integration \<Rightarrow> world \<Rightarrow> (exn + 'a) \<times> bring_integration \<times> world" where
  "on_client m s w =
     (case client s of
        None \<Rightarrow> (Inl AttributeError, s, w)
      | Some c \<Rightarrow> (case m c w of (res, c1, w1) \<Rightarrow> (res, s\<lparr>client := Some c1\<rparr>, w1)))"

definition get_lists ::
  "env \<Rightarrow> bring_integration \<Rightarrow> world \<Rightarrow>
     (exn + bring_list list) \<times> bring_integration \<times> world" where
  "get_lists r s w =
     (case initialize r s w of
        (Inl e, s1, w1) \<Rightarrow> (Inl e, s1, w1)
      | (Inr _, s1, w1) \<Rightarrow> on_client (client_get_lists r False) s1 w1)"

definition find_list ::
  "env \<Rightarrow> string \<Rightarrow> bring_integration \<Rightarrow> world \<Rightarrow>
     (exn + bring_list option) \<times> bring_integration \<times> world" where
  "find_list r n s w =
     (case initialize r s w of
        (Inl e, s1, w1) \<Rightarrow> (Inl e, s1, w1)
      | (Inr _, s1, w1) \<Rightarrow> on_client (client_get_list_by_name r n) s1 w1)"

definition set_default_list ::
  "env \<Rightarrow> string \<Rightarrow> bring_integration \<Rightarrow> world \<Rightarrow>
     (exn + bool) \<times> bring_integration \<times> world" where
  "set_default_list r n s w =
     (case find_list r n s w of
        (Inl e, s1, w1) \<Rightarrow> (Inl e, s1, w1)
      | (Inr found, s1, w1) \<Rightarrow>
          (case found of
             Some lst \<Rightarrow> (Inr True, s1\<lparr>default_list_uuid := Some (listUuid lst)\<rparr>, w1)
           | None \<Rightarrow> (Inr False, s1, w1)))"

text \<open>
  Python's truth value of an optional string: \<open>None\<close> and the empty string are false.
  \<open>str_of\<close> reads the string where the test has passed.
\<close>

definition truthy :: "string option \<Rightarrow> bool" where
  "truthy v = (case v of None \<Rightarrow> False | Some s \<Rightarrow> s \<noteq> [])"

definition str_of :: "string option \<Rightarrow> string" where
  "str_of v = (case v of None \<Rightarrow> [] | Some s \<Rightarrow> s)"

text \<open>The two \<open>ValueError\<close>s the integration raises, with their messages.\<close>

definition list_not_found :: "string \<Rightarrow> exn" where
  "list_not_found n = ValueError (''List '' @ [CHR 0x27] @ n @ [CHR 0x27] @ '' not found'')"

definition no_default_list :: exn where
  "no_default_list =
     ValueError (''No list specified and no default list set. '' @
                 ''Use set_default_list() or provide list_name parameter.'')"

text \<open>\<open>_get_list_uuid\<close>: a given name is returned as it is; otherwise the stored default.\<close>

definition get_list_uuid :: "string option \<Rightarrow> bring_integration \<Rightarrow> exn + string" where
  "get_list_uuid list_name s =
     (if truthy list_name then Inr (str_of list_name)
      else if truthy (default_list_uuid s) then Inr (str_of (default_list_uuid s))
      else Inl no_default_list)"

text \<open>
  The block \<open>if list_name: ... else: list_uuid = self._get_list_uuid()\<close> that
  \<open>get_items\<close>, \<open>add_item\<close>, \<open>add_items\<close>, \<open>complete_item\<close> and \<open>remove_item\<close> each repeat
  word for word.
\<close>

definition resolve_list ::
  "env \<Rightarrow> string option \<Rightarrow> bring_integration \<Rightarrow> world \<Rightarrow>
     (exn + string) \<times> bring_integration \<times> world" where
  "resolve_list r list_name s w =
     (if truthy list_name then
        (case find_list r (str_of list_name) s w of
           (Inl e, s1, w1) \<Rightarrow> (Inl e, s1, w1)
         | (Inr found, s1, w1) \<Rightarrow>
             (case found of
                None \<Rightarrow> (Inl (list_not_found (str_of list_name)), s1, w1)
              | Some lst \<Rightarrow> (Inr (listUuid lst), s1, w1)))
      else
        (case get_list_uuid None s of
           Inl e \<Rightarrow> (Inl e, s, w)
         | Inr list_uuid \<Rightarrow> (Inr list_uuid, s, w)))"

text \<open>
  The frame of the five item operations: \<open>await self.initialize()\<close>, the block above, then
  the client's method on the resolved identifier.
\<close>

definition with_list ::
  "env \<Rightarrow> string option \<Rightarrow>
     (string \<Rightarrow> bring_client \<Rightarrow> world \<Rightarrow> (exn + 'a) \<times> bring_client \<times> world) \<Rightarrow>
     bring_integration \<Rightarrow> world \<Rightarrow> (exn + 'a) \<times> bring_integration \<times> world" where
  "with_list r list_name m s w =
     (case initialize r s w of
        (Inl e, s1, w1) \<Rightarrow> (Inl e, s1, w1)
      | (Inr _, s1, w1) \<Rightarrow>
          (case resolve_list r list_name s1 w1 of
             (Inl e, s2, w2) \<Rightarrow> (Inl e, s2, w2)
           | (Inr list_uuid, s2, w2) \<Rightarrow> on_client (m list_uuid) s2 w2))"

definition get_items ::
  "env \<Rightarrow> string option \<Rightarrow> bring_integration \<Rightarrow> world \<Rightarrow>
     (exn + contents) \<times> bring_integration \<times> world" where
  "get_items r list_name = with_list r list_name (\<lambda>list_uuid. client_get_items r list_uuid)"

definition add_item ::
  "env \<Rightarrow> string \<Rightarrow> string \<Rightarrow> string option \<Rightarrow> bring_integration \<Rightarrow> world \<Rightarrow>
     (exn + bool) \<times> bring_integration \<times> world" where
  "add_item r item_name specification list_name =
     with_list r list_name (\<lambda>list_uuid. client_add_item r list_uuid item_name specification)"

text \<open>
  The loop of \<open>add_items\<close> that builds \<open>formatted_items\<close>: a string gives a dict with the
  one key \<open>itemId\<close>, a dict gives \<open>itemId\<close> and \<open>spec\<close> read with their fallbacks, and
  for anything else neither branch runs.
\<close>

fun format_items :: "pyval list \<Rightarrow> pydict list \<Rightarrow> pydict list" where
  "format_items [] formatted_items = formatted_items"
| "format_items (PyStr item # rest) formatted_items =
     format_items rest (formatted_items @ [[(''itemId'', PyStr item)]])"
| "format_items (PyDict item # rest) formatted_items =
     format_items rest (formatted_items @
       [[(''itemId'', dict_get item ''name'' (dict_get item ''itemId'' PyNone)),
         (''spec'', dict_get item ''spec'' (dict_get item ''specification'' (PyStr [])))]])"
| "format_items (_ # rest) formatted_items = format_items rest formatted_items"

definition add_items ::
  "env \<Rightarrow> pyval list \<Rightarrow> string option \<Rightarrow> bring_integration \<Rightarrow> world \<Rightarrow>
     (exn + bool) \<times> bring_integration \<times> world" where
  "add_items r items list_name =
     with_list r list_name
       (\<lambda>list_uuid. client_batch_add_items r list_uuid (format_items items []))"

definition complete_item ::
  "env \<Rightarrow> string \<Rightarrow> string option \<Rightarrow> bring_integration \<Rightarrow> world \<Rightarrow>
     (exn + bool) \<times> bring_integration \<times> world" where
  "complete_item r item_name list_name =
     with_list r list_name (\<lambda>list_uuid. client_complete_item r list_uuid item_name)"

definition remove_item ::
  "env \<Rightarrow> string \<Rightarrow> string option \<Rightarrow> bring_integration \<Rightarrow> world \<Rightarrow>
     (exn + bool) \<times> bring_integration \<times> world" where
  "remove_item r item_name list_name =
     with_list r list_name (\<lambda>list_uuid. client_remove_item r list_uuid item_name)"

text \<open>
  \<open>format_list_summary\<close>: the items are fetched, then the display name is looked up: by
  the given name, or else as the name of the first catalog entry whose identifier is the
  stored default (the \<open>for ... else\<close> loop). The text lines are a pure function of the
  display name, the items to buy and the first five recent items, which is what the model
  returns.
\<close>

record summary =
  display_name :: string
  to_buy :: "(string \<times> string) list"
  recent :: "(string \<times> string) list"

definition name_of :: "bring_list \<Rightarrow> exn + string" where
  "name_of lst = (case name lst of None \<Rightarrow> Inl (KeyError ''name'') | Some v \<Rightarrow> Inr v)"

fun default_display_name :: "string option \<Rightarrow> bring_list list \<Rightarrow> exn + string" where
  "default_display_name d [] = Inr ''Shopping List''"
| "default_display_name d (lst # rest) =
     (if Some (listUuid lst) = d then name_of lst else default_display_name d rest)"

definition make_summary :: "contents \<Rightarrow> exn + string \<Rightarrow> exn + summary" where
  "make_summary items dn =
     (case dn of
        Inl e \<Rightarrow> Inl e
      | Inr n \<Rightarrow> Inr \<lparr>display_name = n, to_buy = purchase items, recent = take 5 (recently items)\<rparr>)"

definition format_list_summary ::
  "env \<Rightarrow> string option \<Rightarrow> bring_integration \<Rightarrow> world \<Rightarrow>
     (exn + summary) \<times> bring_integration \<times> world" where
  "format_list_summary r list_name s w =
     (case get_items r list_name s w of
        (Inl e, s1, w1) \<Rightarrow> (Inl e, s1, w1)
      | (Inr items, s1, w1) \<Rightarrow>
          if truthy list_name then
            (case find_list r (str_of list_name) s1 w1 of
               (Inl e, s2, w2) \<Rightarrow> (Inl e, s2, w2)
             | (Inr found, s2, w2) \<Rightarrow>
                 (make_summary items
                    (case found of None \<Rightarrow> Inr ''Shopping List'' | Some lst \<Rightarrow> name_of lst),
                  s2, w2))
          else
            (case get_lists r s1 w1 of
               (Inl e, s2, w2) \<Rightarrow> (Inl e, s2, w2)
             | (Inr ls, s2, w2) \<Rightarrow>
                 (make_summary items (default_display_name (default_list_uuid s2) ls), s2, w2)))"

section \<open>Sessions\<close>

text \<open>The public operations of \<open>BringIntegration\<close> and what they return.\<close>

datatype op =
    Op_initialize
  | Op_cleanup
  | Op_get_lists
  | Op_find_list string
  | Op_set_default_list string
  | Op_get_items "string option"
  | Op_add_item string string "string option"
  | Op_add_items "pyval list" "string option"
  | Op_complete_item string "string option"
  | Op_remove_item string "string option"
  | Op_format_list_summary "string option"

datatype result =
    R_none
  | R_lists "bring_list list"
  | R_found "bring_list option"
  | R_bool bool
  | R_contents contents
  | R_summary summary

definition returning ::
  "('a \<Rightarrow> result) \<Rightarrow> (exn + 'a) \<times> bring_integration \<times> world \<Rightarrow>
     (exn + result) \<times> bring_integration \<times> world" where
  "returning f x = (case x of (res, s, w) \<Rightarrow> (map_sum id f res, s, w))"

fun exec ::
  "env \<Rightarrow> op \<Rightarrow> bring_integration \<Rightarrow> world \<Rightarrow>
     (exn + result) \<times> bring_integration \<times> world" where
  "exec r Op_initialize s w = returning (\<lambda>_. R_none) (initialize r s w)"
| "exec r Op_cleanup s w = (case cleanup s w of (s1, w1) \<Rightarrow> (Inr R_none, s1, w1))"
| "exec r Op_get_lists s w = returning R_lists (get_lists r s w)"
| "exec r (Op_find_list n) s w = returning R_found (find_list r n s w)"
| "exec r (Op_set_default_list n) s w = returning R_bool (set_default_list r n s w)"
| "exec r (Op_get_items ln) s w = returning R_contents (get_items r ln s w)"
| "exec r (Op_add_item i sp ln) s w = returning R_bool (add_item r i sp ln s w)"
| "exec r (Op_add_items is ln) s w = returning R_bool (add_items r is ln s w)"
| "exec r (Op_complete_item i ln) s w = returning R_bool (complete_item r i ln s w)"
| "exec r (Op_remove_item i ln) s w = returning R_bool (remove_item r i ln s w)"
| "exec r (Op_format_list_summary ln) s w = returning R_summary (format_list_summary r ln s w)"

text \<open>A block of operations run one after the other; an exception ends the block.\<close>

fun run_body ::
  "env \<Rightarrow> op list \<Rightarrow> bring_integration \<Rightarrow> world \<Rightarrow>
     (exn + unit) \<times> bring_integration \<times> world" where
  "run_body r [] s w = (Inr (), s, w)"
| "run_body r (x # xs) s w =
     (case exec r x s w of
        (Inl e, s1, w1) \<Rightarrow> (Inl e, s1, w1)
      | (Inr _, s1, w1) \<Rightarrow> run_body r xs s1 w1)"

text \<open>
  \<open>async with BringIntegration() as bring: body\<close>. \<open>__aenter__\<close> awaits \<open>initialize\<close>; when
  it raises, Python does not call \<open>__aexit__\<close>. Otherwise the body runs and \<open>__aexit__\<close>
  awaits \<open>cleanup\<close> whether or not the body raised; it returns \<open>None\<close>, so the body's
  exception propagates.
\<close>

definition async_with ::
  "env \<Rightarrow> op list \<Rightarrow> bring_integration \<Rightarrow> world \<Rightarrow>
     (exn + unit) \<times> bring_integration \<times> world" where
  "async_with r body s w =
     (case initialize r s w of
        (Inl e, s1, w1) \<Rightarrow> (Inl e, s1, w1)
      | (Inr _, s1, w1) \<Rightarrow>
          (case run_body r body s1 w1 of
             (res, s2, w2) \<Rightarrow> (case cleanup s2 w2 of (s3, w3) \<Rightarrow> (res, s3, w3))))"

section \<open>Notions used in the properties\<close>

text \<open>\<open>k\<close> calls of \<open>get_lists()\<close> in a row on one client, whatever each returns.\<close>

fun get_lists_times ::
  "env \<Rightarrow> nat \<Rightarrow> bring_client \<Rightarrow> world \<Rightarrow> bring_client \<times> world" where
  "get_lists_times r 0 c w = (c, w)"
| "get_lists_times r (Suc k) c w =
     (case client_get_lists r False c w of (_, c1, w1) \<Rightarrow> get_lists_times r k c1 w1)"

text \<open>The requests that go to an item endpoint, as opposed to the login and the catalog.\<close>

fun item_call :: "call \<Rightarrow> bool" where
  "item_call Login = False"
| "item_call Load_lists = False"
| "item_call _ = True"

text \<open>
  The normal form of one element of a batch in the words of the specification: a string
  \<open>s\<close> becomes the dict with \<open>itemId\<close> \<open>s\<close> alone; a dict \<open>d\<close> becomes the dict with
  \<open>itemId\<close> \<open>d[name]\<close> if present, else \<open>d[itemId]\<close> (\<open>None\<close> when that is missing too), and
  \<open>spec\<close> \<open>d[spec]\<close> if present, else \<open>d[specification]\<close> if present, else the empty
  string; anything else has no normal form and is dropped.
\<close>

definition spec_normalized :: "pyval \<Rightarrow> pydict option" where
  "spec_normalized v =
     (case v of
        PyStr s \<Rightarrow> Some [(''itemId'', PyStr s)]
      | PyDict d \<Rightarrow>
          Some [(''itemId'',
                 (case map_of d ''name'' of
                    Some x \<Rightarrow> x
                  | None \<Rightarrow> (case map_of d ''itemId'' of Some x \<Rightarrow> x | None \<Rightarrow> PyNone))),
                (''spec'',
                 (case map_of d ''spec'' of
                    Some x \<Rightarrow> x
                  | None \<Rightarrow>
                      (case map_of d ''specification'' of Some x \<Rightarrow> x | None \<Rightarrow> PyStr [])))]
      | _ \<Rightarrow> None)"

definition str_or_dict :: "pyval \<Rightarrow> bool" where
  "str_or_dict v = (case v of PyStr _ \<Rightarrow> True | PyDict _ \<Rightarrow> True | _ \<Rightarrow> False)"

text \<open>
  The sessions a state holds open: an integration is \<open>balanced\<close> with the world when
  every session ever opened is closed, but for the one its connected client holds. A
  client method \<open>keeps_sessions\<close> when it changes the two sides alike.
\<close>

definition open_of :: "bring_client option \<Rightarrow> nat" where
  "open_of co = (case co of Some c \<Rightarrow> if connected c then 1 else 0 | None \<Rightarrow> 0)"

definition balanced :: "bring_integration \<Rightarrow> world \<Rightarrow> bool" where
  "balanced s w = (opened w = closed w + open_of (client s))"

definition keeps_sessions ::
  "(bring_client \<Rightarrow> world \<Rightarrow> 'a \<times> bring_client \<times> world) \<Rightarrow> bool" where
  "keeps_sessions m =
     (\<forall>c w res c1 w1. m c w = (res, c1, w1) \<longrightarrow>
        opened w1 + closed w + open_of (Some c) = opened w + closed w1 + open_of (Some c1))"

section \<open>Concrete sessions\<close>

text \<open>
  The runtime of the concrete sessions. On a string whose characters all lie below
  U+0100, \<open>str.lower()\<close> adds 32 to the letters \<open>A\<close> to \<open>Z\<close>, U+00C0 to U+00D6 and U+00D8 to
  U+00DE and leaves every other character as it is. In UTF-8 the characters from U+00C0
  to U+00FF are the byte C3 followed by a byte from 80 to BF, and the letters to fold are
  those with a second byte from 80 to 96 or from 98 to 9E. Every name in the concrete
  sessions is such a string.
\<close>

definition lower_ascii :: "char \<Rightarrow> char" where
  "lower_ascii c =
     (case map_of (zip ''ABCDEFGHIJKLMNOPQRSTUVWXYZ'' ''abcdefghijklmnopqrstuvwxyz'') c of
        Some l \<Rightarrow> l
      | None \<Rightarrow> c)"

definition lower_c3 :: "char \<Rightarrow> char" where
  "lower_c3 c =
     (case map_of
        (zip [CHR 0x80, CHR 0x81, CHR 0x82, CHR 0x83, CHR 0x84, CHR 0x85, CHR 0x86, CHR 0x87,
              CHR 0x88, CHR 0x89, CHR 0x8A, CHR 0x8B, CHR 0x8C, CHR 0x8D, CHR 0x8E, CHR 0x8F,
              CHR 0x90, CHR 0x91, CHR 0x92, CHR 0x93, CHR 0x94, CHR 0x95, CHR 0x96, CHR 0x98,
              CHR 0x99, CHR 0x9A, CHR 0x9B, CHR 0x9C, CHR 0x9D, CHR 0x9E]
             [CHR 0xA0, CHR 0xA1, CHR 0xA2, CHR 0xA3, CHR 0xA4, CHR 0xA5, CHR 0xA6, CHR 0xA7,
              CHR 0xA8, CHR 0xA9, CHR 0xAA, CHR 0xAB, CHR 0xAC, CHR 0xAD, CHR 0xAE, CHR 0xAF,
              CHR 0xB0, CHR 0xB1, CHR 0xB2, CHR 0xB3, CHR 0xB4, CHR 0xB5, CHR 0xB6, CHR 0xB8,
              CHR 0xB9, CHR 0xBA, CHR 0xBB, CHR 0xBC, CHR 0xBD, CHR 0xBE]) c of
        Some l \<Rightarrow> l
      | None \<Rightarrow> c)"

fun lower_latin1 :: "string \<Rightarrow> string" where
  "lower_latin1 [] = []"
| "lower_latin1 [c] = [lower_ascii c]"
| "lower_latin1 (c # d # s) =
     (if c = CHR 0xC3 then c # lower_c3 d # lower_latin1 s
      else lower_ascii c # lower_latin1 (d # s))"

definition party :: bring_list where
  "party = \<lparr>listUuid = ''c3'', name = Some ''Party'', theme = None\<rparr>"

definition weekly :: bring_list where
  "weekly = \<lparr>listUuid = ''a1'', name = Some ''Weekly'', theme = None\<rparr>"

definition weekly_dup :: bring_list where
  "weekly_dup = \<lparr>listUuid = ''b2'', name = Some ''WEEKLY'', theme = None\<rparr>"

definition demo_remote :: env where
  "demo_remote =
     \<lparr>login = (\<lambda>_. None),
      load_lists = (\<lambda>_. Inr [(''lists'', [party, weekly, weekly_dup])]),
      get_list = (\<lambda>_ _. Inr \<lparr>purchase = [], recently = []\<rparr>),
      update = (\<lambda>_ _. None),
      str_lower = lower_latin1\<rparr>"

definition world0 :: world where
  "world0 = \<lparr>calls = [], opened = 0, closed = 0\<rparr>"

text \<open>
  A service with a list named \<open>APFEL\<close>, its first letter being U+00C4, and the same name
  in small letters, with U+00E4.
\<close>

definition apfel :: bring_list where
  "apfel =
     \<lparr>listUuid = ''d4'', name = Some ([CHR 0xC3, CHR 0x84] @ ''PFEL''), theme = None\<rparr>"

definition apfel_query :: string where
  "apfel_query = [CHR 0xC3, CHR 0xA4] @ ''pfel''"

definition umlaut_remote :: env where
  "umlaut_remote =
     \<lparr>login = (\<lambda>_. None),
      load_lists = (\<lambda>_. Inr [(''lists'', [party, apfel])]),
      get_list = (\<lambda>_ _. Inr \<lparr>purchase = [], recently = []\<rparr>),
      update = (\<lambda>_ _. None),
      str_lower = lower_latin1\<rparr>"

text \<open>A service whose first answer is an empty catalog and whose later answers hold one list.\<close>

definition late_remote :: env where
  "late_remote =
     \<lparr>login = (\<lambda>_. None),
      load_lists = (\<lambda>h. if Load_lists \<in> set h then Inr [(''lists'', [weekly])]
                        else Inr [(''lists'', [])]),
      get_list = (\<lambda>_ _. Inr \<lparr>purchase = [], recently = []\<rparr>),
      update = (\<lambda>_ _. None),
      str_lower = lower_latin1\<rparr>"

text \<open>A service whose catalog response has no field \<open>lists\<close>.\<close>

definition bare_remote :: env where
  "bare_remote =
     \<lparr>login = (\<lambda>_. None),
      load_lists = (\<lambda>_. Inr []),
      get_list = (\<lambda>_ _. Inr \<lparr>purchase = [], recently = []\<rparr>),
      update = (\<lambda>_ _. None),
      str_lower = lower_latin1\<rparr>"

definition connected_client :: bring_client where
  "connected_client = \<lparr>connected = True, lists_cache = None\<rparr>"

definition world1 :: world where
  "world1 = \<lparr>calls = [Login], opened = 1, closed = 0\<rparr>"

text \<open>The demo session once its catalog is cached, and then with \<open>Weekly\<close> as the default.\<close>

definition demo_client :: bring_client where
  "demo_client = \<lparr>connected = True, lists_cache = Some [party, weekly, weekly_dup]\<rparr>"

definition demo_world :: world where
  "demo_world = \<lparr>calls = [Login, Load_lists], opened = 1, closed = 0\<rparr>"

definition chosen :: bring_integration where
  "chosen = \<lparr>client = Some demo_client, default_list_uuid = Some ''a1''\<rparr>"

text \<open>The demo session with its catalog cached and no default chosen.\<close>

definition unchosen :: bring_integration where
  "unchosen = \<lparr>client = Some demo_client, default_list_uuid = None\<rparr>"

text \<open>A batch with strings, dicts and two elements that are neither.\<close>

definition mixed_batch :: "pyval list" where
  "mixed_batch =
     [PyStr ''Eggs'', PyInt 3,
      PyDict [(''name'', PyStr ''Milk''), (''specification'', PyStr ''1 liter'')],
      PyNone,
      PyDict [(''itemId'', PyStr ''Bread'')]]"

text \<open>A service that refuses the login.\<close>

definition locked_remote :: env where
  "locked_remote =
     \<lparr>login = (\<lambda>_. Some ''401 Unauthorized''),
      load_lists = (\<lambda>_. Inl ''not logged in''),
      get_list = (\<lambda>_ _. Inl ''not logged in''),
      update = (\<lambda>_ _. Some ''not logged in''),
      str_lower = lower_latin1\<rparr>"

section \<open>Properties\<close>

subsection \<open>Lookup by name\<close>

lemma first_by_name_None:
  "first_by_name lower n cat = None \<longleftrightarrow> (\<forall>e \<in> set cat. lower (get_name e) \<noteq> lower n)"
  by (induction cat) auto






subsection \<open>The catalog cache\<close>

lemma get_lists_hit:
  "connected c \<Longrightarrow> lists_cache c = Some cached \<Longrightarrow>
     client_get_lists r False c w = (Inr cached, c, w)"
  by (simp add: client_get_lists_def ensure_connected_def)

lemma get_lists_fetch_ok:
  "connected c \<Longrightarrow> lists_cache c = None \<or> force_refresh \<Longrightarrow>
   load_lists r (calls w) = Inr response \<Longrightarrow>
     client_get_lists r force_refresh c w =
       (Inr (dict_get response ''lists'' []),
        c\<lparr>lists_cache := Some (dict_get response ''lists'' [])\<rparr>,
        log_call Load_lists w)"
  by (auto simp add: client_get_lists_def ensure_connected_def fetch_lists_def Let_def
      split: option.splits)

lemma get_lists_fetch_fails:
  "connected c \<Longrightarrow> lists_cache c = None \<or> force_refresh \<Longrightarrow>
   load_lists r (calls w) = Inl msg \<Longrightarrow>
     client_get_lists r force_refresh c w = (Inl (ServiceError msg), c, log_call Load_lists w)"
  by (auto simp add: client_get_lists_def ensure_connected_def fetch_lists_def
      split: option.splits)

lemma get_lists_times_hit:
  "connected c \<Longrightarrow> lists_cache c = Some cached \<Longrightarrow> get_lists_times r k c w = (c, w)"
  by (induction k) (simp_all add: get_lists_hit)

text \<open>
  C2, as the code has it. On a connected client, \<open>get_lists\<close> returns the cached catalog
  without any request whenever a catalog has been cached, the empty one included, and
  \<open>force_refresh\<close> is false; any number of further \<open>get_lists()\<close> calls then make no
  request either. When nothing is cached or \<open>force_refresh\<close> is true it makes exactly one
  \<open>load_lists\<close> request: on success the cache is replaced by the fetched catalog, which
  is returned; on failure the error propagates and the cache is left as it was.
\<close>

theorem get_lists_cache_policy:
  assumes "connected c"
  shows "(\<forall>cached. lists_cache c = Some cached \<longrightarrow>
            client_get_lists r False c w = (Inr cached, c, w)
            \<and> (\<forall>k. get_lists_times r k c w = (c, w)))
       \<and> (lists_cache c = None \<or> force_refresh \<longrightarrow>
            (\<forall>response. load_lists r (calls w) = Inr response \<longrightarrow>
               client_get_lists r force_refresh c w =
                 (Inr (dict_get response ''lists'' []),
                  c\<lparr>lists_cache := Some (dict_get response ''lists'' [])\<rparr>,
                  w\<lparr>calls := calls w @ [Load_lists]\<rparr>))
          \<and> (\<forall>msg. load_lists r (calls w) = Inl msg \<longrightarrow>
               client_get_lists r force_refresh c w =
                 (Inl (ServiceError msg), c, w\<lparr>calls := calls w @ [Load_lists]\<rparr>)))"
  using assms get_lists_hit[of c _ r w] get_lists_times_hit[of c _ r _ w]
    get_lists_fetch_ok[of c force_refresh r w] get_lists_fetch_fails[of c force_refresh r w]
  unfolding log_call_def by blast

lemma connect_new:
  "login r (calls w) = None \<Longrightarrow>
     client_connect r new_client w =
       (Inr (), \<lparr>connected = True, lists_cache = None\<rparr>,
        \<lparr>calls = calls w @ [Login], opened = Suc (opened w), closed = closed w\<rparr>)"
  by (simp add: client_connect_def new_client_def log_call_def Let_def)

theorem get_lists_cache_policy_witness:
  "connected connected_client
   \<and> client_get_lists late_remote False connected_client world1 =
       (Inr [], \<lparr>connected = True, lists_cache = Some []\<rparr>,
        \<lparr>calls = [Login, Load_lists], opened = 1, closed = 0\<rparr>)
   \<and> client_get_lists late_remote True \<lparr>connected = True, lists_cache = Some []\<rparr>
        \<lparr>calls = [Login, Load_lists], opened = 1, closed = 0\<rparr> =
       (Inr [weekly], \<lparr>connected = True, lists_cache = Some [weekly]\<rparr>,
        \<lparr>calls = [Login, Load_lists, Load_lists], opened = 1, closed = 0\<rparr>)
   \<and> get_lists_times late_remote 3 \<lparr>connected = True, lists_cache = Some [weekly]\<rparr>
        \<lparr>calls = [Login, Load_lists, Load_lists], opened = 1, closed = 0\<rparr> =
       (\<lparr>connected = True, lists_cache = Some [weekly]\<rparr>,
        \<lparr>calls = [Login, Load_lists, Load_lists], opened = 1, closed = 0\<rparr>)"
proof -
  have c0: "connected connected_client" by (simp add: connected_client_def)
  have c1: "connected \<lparr>connected = True, lists_cache = Some []\<rparr>" by simp
  have c2: "connected \<lparr>connected = True, lists_cache = Some [weekly]\<rparr>" by simp
  have r0: "load_lists late_remote (calls world1) = Inr [(''lists'', [])]"
    by (simp add: late_remote_def world1_def)
  have r1: "load_lists late_remote
      (calls \<lparr>calls = [Login, Load_lists], opened = 1, closed = 0\<rparr>) = Inr [(''lists'', [weekly])]"
    by (simp add: late_remote_def)
  have a: "client_get_lists late_remote False connected_client world1 =
       (Inr [], \<lparr>connected = True, lists_cache = Some []\<rparr>,
        \<lparr>calls = [Login, Load_lists], opened = 1, closed = 0\<rparr>)"
    using get_lists_cache_policy[OF c0, where r = late_remote and w = world1 and force_refresh = False] r0
    by (simp add: connected_client_def world1_def dict_get_def)
  have b: "client_get_lists late_remote True \<lparr>connected = True, lists_cache = Some []\<rparr>
        \<lparr>calls = [Login, Load_lists], opened = 1, closed = 0\<rparr> =
       (Inr [weekly], \<lparr>connected = True, lists_cache = Some [weekly]\<rparr>,
        \<lparr>calls = [Login, Load_lists, Load_lists], opened = 1, closed = 0\<rparr>)"
    using get_lists_cache_policy[OF c1, where r = late_remote and force_refresh = True
        and w = "\<lparr>calls = [Login, Load_lists], opened = 1, closed = 0\<rparr>"] r1
    by (simp add: dict_get_def)
  have c: "get_lists_times late_remote 3 \<lparr>connected = True, lists_cache = Some [weekly]\<rparr>
        \<lparr>calls = [Login, Load_lists, Load_lists], opened = 1, closed = 0\<rparr> =
       (\<lparr>connected = True, lists_cache = Some [weekly]\<rparr>,
        \<lparr>calls = [Login, Load_lists, Load_lists], opened = 1, closed = 0\<rparr>)"
    using get_lists_cache_policy[OF c2, where r = late_remote and force_refresh = False
        and w = "\<lparr>calls = [Login, Load_lists, Load_lists], opened = 1, closed = 0\<rparr>"]
    by simp
  from c0 a b c show ?thesis by blast
qed

text \<open>
  C2 as written says that an empty cache is fetched again. It is not: after the service
  has answered with an empty catalog, \<open>get_lists()\<close> returns the cached empty catalog and
  makes no request, although the service would now answer with one list.
\<close>

theorem get_lists_empty_cache_counterexample:
  "client_get_lists late_remote False connected_client world1 =
       (Inr [], \<lparr>connected = True, lists_cache = Some []\<rparr>,
        \<lparr>calls = [Login, Load_lists], opened = 1, closed = 0\<rparr>)
   \<and> load_lists late_remote [Login, Load_lists] = Inr [(''lists'', [weekly])]
   \<and> client_get_lists late_remote False \<lparr>connected = True, lists_cache = Some []\<rparr>
        \<lparr>calls = [Login, Load_lists], opened = 1, closed = 0\<rparr> =
       (Inr [], \<lparr>connected = True, lists_cache = Some []\<rparr>,
        \<lparr>calls = [Login, Load_lists], opened = 1, closed = 0\<rparr>)"
  by (simp add: client_get_lists_def ensure_connected_def fetch_lists_def log_call_def
      dict_get_def late_remote_def connected_client_def world1_def Let_def)

text \<open>
  C6. When the connection is up and the catalog has to be fetched, a response whose field
  \<open>lists\<close> is missing or empty makes \<open>get_lists\<close> return the empty list, and cache it,
  rather than raise.
\<close>

theorem get_lists_empty_catalog:
  assumes "ensure_connected r c w = (Inr (), c1, w1)"
      and "lists_cache c1 = None \<or> force_refresh"
      and "load_lists r (calls w1) = Inr response"
      and "map_of response ''lists'' = None \<or> map_of response ''lists'' = Some []"
  shows "client_get_lists r force_refresh c w =
           (Inr [], c1\<lparr>lists_cache := Some []\<rparr>, w1\<lparr>calls := calls w1 @ [Load_lists]\<rparr>)"
proof -
  from assms(4) have "dict_get response ''lists'' [] = ([] :: bring_list list)"
    by (auto simp add: dict_get_def)
  with assms(1-3) show ?thesis
    by (auto simp add: client_get_lists_def fetch_lists_def log_call_def Let_def
        split: option.splits)
qed

theorem get_lists_empty_catalog_witness:
  "ensure_connected bare_remote new_client world0 =
     (Inr (), \<lparr>connected = True, lists_cache = None\<rparr>,
      \<lparr>calls = [Login], opened = 1, closed = 0\<rparr>)
   \<and> load_lists bare_remote [Login] = Inr []
   \<and> map_of ([] :: (string \<times> bring_list list) list) ''lists'' = None
   \<and> client_get_lists bare_remote False new_client world0 =
       (Inr [], \<lparr>connected = True, lists_cache = Some []\<rparr>,
        \<lparr>calls = [Login, Load_lists], opened = 1, closed = 0\<rparr>)"
proof -
  have h1: "ensure_connected bare_remote new_client world0 =
     (Inr (), \<lparr>connected = True, lists_cache = None\<rparr>,
      \<lparr>calls = [Login], opened = 1, closed = 0\<rparr>)"
    by (simp add: ensure_connected_def client_connect_def new_client_def world0_def
        bare_remote_def log_call_def Let_def)
  have h2: "lists_cache \<lparr>connected = True, lists_cache = None\<rparr> = None \<or> False" by simp
  have h3: "load_lists bare_remote (calls \<lparr>calls = [Login], opened = 1, closed = 0\<rparr>) = Inr []"
    by (simp add: bare_remote_def)
  have h4: "map_of ([] :: (string \<times> bring_list list) list) ''lists'' = None
      \<or> map_of ([] :: (string \<times> bring_list list) list) ''lists'' = Some []" by simp
  from get_lists_empty_catalog[OF h1 h2 h3 h4] h1 h3 show ?thesis by simp
qed

subsection \<open>The default list\<close>

lemmas eval_defs =
  initialize_def on_client_def client_connect_def ensure_connected_def client_get_lists_def
  client_get_list_by_name_def fetch_lists_def log_call_def dict_get_def find_list_def
  get_lists_def set_default_list_def new_client_def new_integration_def world0_def Let_def
  lower_ascii_def lower_c3_def get_name_def truthy_def str_of_def get_list_uuid_def

lemma initialize_default:
  "initialize r s w = (res, s1, w1) \<Longrightarrow> default_list_uuid s1 = default_list_uuid s"
  by (auto simp add: initialize_def split: option.splits prod.splits)

lemma on_client_default:
  "on_client m s w = (res, s1, w1) \<Longrightarrow> default_list_uuid s1 = default_list_uuid s"
  by (auto simp add: on_client_def split: option.splits prod.splits)

lemma cleanup_default:
  "cleanup s w = (s1, w1) \<Longrightarrow> default_list_uuid s1 = default_list_uuid s"
  by (auto simp add: cleanup_def split: option.splits prod.splits)

lemma get_lists_default:
  assumes "get_lists r s w = (res, s2, w2)"
  shows "default_list_uuid s2 = default_list_uuid s"
proof (cases "initialize r s w")
  case (fields ires s1 w1)
  note i = initialize_default[OF fields]
  show ?thesis
  proof (cases ires)
    case (Inl e)
    with assms fields i show ?thesis by (simp add: get_lists_def)
  next
    case (Inr u)
    with assms fields have "on_client (client_get_lists r False) s1 w1 = (res, s2, w2)"
      by (simp add: get_lists_def)
    from on_client_default[OF this] i show ?thesis by simp
  qed
qed

lemma find_list_default:
  assumes "find_list r n s w = (res, s2, w2)"
  shows "default_list_uuid s2 = default_list_uuid s"
proof (cases "initialize r s w")
  case (fields ires s1 w1)
  note i = initialize_default[OF fields]
  show ?thesis
  proof (cases ires)
    case (Inl e)
    with assms fields i show ?thesis by (simp add: find_list_def)
  next
    case (Inr u)
    with assms fields have "on_client (client_get_list_by_name r n) s1 w1 = (res, s2, w2)"
      by (simp add: find_list_def)
    from on_client_default[OF this] i show ?thesis by simp
  qed
qed

text \<open>
  C3. \<open>set_default_list(n)\<close> runs \<open>find_list(n)\<close> and follows it: when \<open>find_list\<close>
  returns an entry, it returns \<open>True\<close> and stores that entry's identifier as the default;
  when \<open>find_list\<close> returns \<open>None\<close>, it returns \<open>False\<close> and the default is the one
  stored before; when \<open>find_list\<close> raises, the same exception propagates and the default
  is again the one stored before. So \<open>True\<close> is returned exactly when the list is found.
\<close>

theorem set_default_list_iff_found:
  "(\<forall>lst s1 w1. find_list r n s w = (Inr (Some lst), s1, w1) \<longrightarrow>
       set_default_list r n s w =
         (Inr True, s1\<lparr>default_list_uuid := Some (listUuid lst)\<rparr>, w1))
   \<and> (\<forall>s1 w1. find_list r n s w = (Inr None, s1, w1) \<longrightarrow>
         set_default_list r n s w = (Inr False, s1, w1)
         \<and> default_list_uuid s1 = default_list_uuid s)
   \<and> (\<forall>e s1 w1. find_list r n s w = (Inl e, s1, w1) \<longrightarrow>
         set_default_list r n s w = (Inl e, s1, w1)
         \<and> default_list_uuid s1 = default_list_uuid s)
   \<and> (fst (set_default_list r n s w) = Inr True \<longleftrightarrow>
         (\<exists>lst. fst (find_list r n s w) = Inr (Some lst)))"
proof -
  have a: "\<forall>lst s1 w1. find_list r n s w = (Inr (Some lst), s1, w1) \<longrightarrow>
       set_default_list r n s w =
         (Inr True, s1\<lparr>default_list_uuid := Some (listUuid lst)\<rparr>, w1)"
    by (simp add: set_default_list_def)
  have b: "\<forall>s1 w1. find_list r n s w = (Inr None, s1, w1) \<longrightarrow>
         set_default_list r n s w = (Inr False, s1, w1)
         \<and> default_list_uuid s1 = default_list_uuid s"
    using find_list_default[of r n s w] by (simp add: set_default_list_def)
  have c: "\<forall>e s1 w1. find_list r n s w = (Inl e, s1, w1) \<longrightarrow>
         set_default_list r n s w = (Inl e, s1, w1)
         \<and> default_list_uuid s1 = default_list_uuid s"
    using find_list_default[of r n s w] by (simp add: set_default_list_def)
  have d: "fst (set_default_list r n s w) = Inr True \<longleftrightarrow>
         (\<exists>lst. fst (find_list r n s w) = Inr (Some lst))"
    by (cases "find_list r n s w")
       (auto simp add: set_default_list_def split: sum.splits option.splits)
  from a b c d show ?thesis by blast
qed

lemma demo_find_weekly:
  "find_list demo_remote ''weekly'' new_integration world0 =
     (Inr (Some weekly), \<lparr>client = Some demo_client, default_list_uuid = None\<rparr>, demo_world)"
  by (simp add: eval_defs demo_remote_def demo_client_def demo_world_def weekly_def party_def)

theorem set_default_list_iff_found_witness:
  "find_list demo_remote ''weekly'' new_integration world0 =
     (Inr (Some weekly), \<lparr>client = Some demo_client, default_list_uuid = None\<rparr>, demo_world)
   \<and> set_default_list demo_remote ''weekly'' new_integration world0 =
     (Inr True, \<lparr>client = Some demo_client, default_list_uuid = Some ''a1''\<rparr>, demo_world)"
  using set_default_list_iff_found[of demo_remote "''weekly''" new_integration world0]
    demo_find_weekly
  by (simp add: weekly_def)

lemma resolve_list_default:
  assumes "resolve_list r ln s w = (res, s2, w2)"
  shows "default_list_uuid s2 = default_list_uuid s"
proof (cases "truthy ln")
  case True
  obtain fres s1 w1 where f: "find_list r (str_of ln) s w = (fres, s1, w1)"
    by (cases "find_list r (str_of ln) s w")
  from assms True f have "s2 = s1"
    by (auto simp add: resolve_list_def split: sum.splits option.splits)
  with find_list_default[OF f] show ?thesis by simp
next
  case False
  with assms have "s2 = s" by (auto simp add: resolve_list_def split: sum.splits)
  then show ?thesis by simp
qed

lemma with_list_default:
  assumes "with_list r ln m s w = (res, s3, w3)"
  shows "default_list_uuid s3 = default_list_uuid s"
proof -
  obtain ires s1 w1 where i: "initialize r s w = (ires, s1, w1)"
    by (cases "initialize r s w")
  note d1 = initialize_default[OF i]
  show ?thesis
  proof (cases ires)
    case (Inl e)
    with assms i d1 show ?thesis by (simp add: with_list_def)
  next
    case (Inr u)
    obtain rres s2 w2 where rl: "resolve_list r ln s1 w1 = (rres, s2, w2)"
      by (cases "resolve_list r ln s1 w1")
    note d2 = resolve_list_default[OF rl]
    show ?thesis
    proof (cases rres)
      case (Inl e)
      with assms i Inr rl d1 d2 show ?thesis by (simp add: with_list_def)
    next
      case inner: (Inr list_uuid)
      with assms i Inr rl have "on_client (m list_uuid) s2 w2 = (res, s3, w3)"
        by (simp add: with_list_def)
      from on_client_default[OF this] d1 d2 show ?thesis by simp
    qed
  qed
qed

lemma format_list_summary_default:
  assumes "format_list_summary r ln s w = (res, s3, w3)"
  shows "default_list_uuid s3 = default_list_uuid s"
proof -
  obtain gres s1 w1 where g: "get_items r ln s w = (gres, s1, w1)"
    by (cases "get_items r ln s w")
  then have d1: "default_list_uuid s1 = default_list_uuid s"
    using with_list_default by (simp add: get_items_def)
  show ?thesis
  proof (cases gres)
    case (Inl e)
    with assms g d1 show ?thesis by (simp add: format_list_summary_def)
  next
    case (Inr items)
    show ?thesis
    proof (cases "truthy ln")
      case True
      obtain fres s2 w2 where f: "find_list r (str_of ln) s1 w1 = (fres, s2, w2)"
        by (cases "find_list r (str_of ln) s1 w1")
      from assms g Inr True f have "s3 = s2"
        by (auto simp add: format_list_summary_def split: sum.splits)
      with find_list_default[OF f] d1 show ?thesis by simp
    next
      case False
      obtain lres s2 w2 where l: "get_lists r s1 w1 = (lres, s2, w2)"
        by (cases "get_lists r s1 w1")
      from assms g Inr False l have "s3 = s2"
        by (auto simp add: format_list_summary_def split: sum.splits)
      with get_lists_default[OF l] d1 show ?thesis by simp
    qed
  qed
qed

lemma returning_state:
  "returning f x = (res, s1, w1) \<Longrightarrow> \<exists>res0. x = (res0, s1, w1) \<and> res = map_sum id f res0"
  by (cases x) (simp add: returning_def)

lemma set_default_list_frame:
  assumes "set_default_list r n s w = (res, s1, w1)" and "res \<noteq> Inr True"
  shows "default_list_uuid s1 = default_list_uuid s"
proof -
  obtain fres s0 w0 where f: "find_list r n s w = (fres, s0, w0)"
    by (cases "find_list r n s w")
  from assms f have "s1 = s0"
    by (auto simp add: set_default_list_def split: sum.splits option.splits)
  with find_list_default[OF f] show ?thesis by simp
qed

lemma exec_default_frame:
  assumes "exec r x s w = (res, s1, w1)"
      and "\<forall>n. x = Op_set_default_list n \<longrightarrow> res \<noteq> Inr (R_bool True)"
  shows "default_list_uuid s1 = default_list_uuid s"
proof (cases x)
  case Op_initialize
  with assms(1) show ?thesis by (auto dest!: returning_state initialize_default)
next
  case Op_cleanup
  with assms(1) show ?thesis by (auto split: prod.splits dest: cleanup_default)
next
  case Op_get_lists
  with assms(1) show ?thesis by (auto dest!: returning_state get_lists_default)
next
  case (Op_find_list n)
  with assms(1) show ?thesis by (auto dest!: returning_state find_list_default)
next
  case (Op_set_default_list n)
  with assms(1) obtain res0 where
    run: "set_default_list r n s w = (res0, s1, w1)" and res: "res = map_sum id R_bool res0"
    by (auto dest!: returning_state)
  from assms(2) Op_set_default_list res have "res0 \<noteq> Inr True" by auto
  from set_default_list_frame[OF run this] show ?thesis .
next
  case (Op_get_items ln)
  with assms(1) show ?thesis
    by (auto simp add: get_items_def dest!: returning_state with_list_default)
next
  case (Op_add_item i sp ln)
  with assms(1) show ?thesis
    by (auto simp add: add_item_def dest!: returning_state with_list_default)
next
  case (Op_add_items items ln)
  with assms(1) show ?thesis
    by (auto simp add: add_items_def dest!: returning_state with_list_default)
next
  case (Op_complete_item i ln)
  with assms(1) show ?thesis
    by (auto simp add: complete_item_def dest!: returning_state with_list_default)
next
  case (Op_remove_item i ln)
  with assms(1) show ?thesis
    by (auto simp add: remove_item_def dest!: returning_state with_list_default)
next
  case (Op_format_list_summary ln)
  with assms(1) show ?thesis by (auto dest!: returning_state format_list_summary_default)
qed

text \<open>
  C7. The stored default outlives every operation but a successful \<open>set_default_list\<close>:
  \<open>initialize\<close>, \<open>cleanup\<close>, \<open>get_lists\<close>, \<open>find_list\<close>, the five item operations,
  \<open>format_list_summary\<close>, and a \<open>set_default_list\<close> that returns \<open>False\<close> or raises, all
  leave \<open>_default_list_uuid\<close> as it was, whatever they return.
\<close>

theorem default_persists:
  assumes "exec r x s w = (res, s1, w1)"
      and "\<forall>n. x = Op_set_default_list n \<longrightarrow> res \<noteq> Inr (R_bool True)"
  shows "default_list_uuid s1 = default_list_uuid s"
  using assms by (rule exec_default_frame)

lemma demo_failed_set_default:
  "exec demo_remote (Op_set_default_list ''Groceries'') chosen demo_world =
     (Inr (R_bool False), chosen, demo_world)"
  by (simp add: eval_defs returning_def demo_remote_def chosen_def demo_client_def
      demo_world_def weekly_def weekly_dup_def party_def)

lemma demo_cleanup:
  "exec demo_remote Op_cleanup chosen demo_world =
     (Inr R_none, \<lparr>client = None, default_list_uuid = Some ''a1''\<rparr>,
      \<lparr>calls = [Login, Load_lists], opened = 1, closed = 1\<rparr>)"
  by (simp add: cleanup_def client_disconnect_def chosen_def demo_client_def demo_world_def)

theorem default_persists_witness:
  "exec demo_remote Op_cleanup chosen demo_world =
     (Inr R_none, \<lparr>client = None, default_list_uuid = Some ''a1''\<rparr>,
      \<lparr>calls = [Login, Load_lists], opened = 1, closed = 1\<rparr>)
   \<and> exec demo_remote (Op_set_default_list ''Groceries'') chosen demo_world =
     (Inr (R_bool False), chosen, demo_world)
   \<and> default_list_uuid \<lparr>client = None, default_list_uuid = Some ''a1''\<rparr> =
       default_list_uuid chosen"
proof -
  have h1: "\<forall>n. Op_cleanup = Op_set_default_list n \<longrightarrow>
          Inr R_none \<noteq> (Inr (R_bool True) :: exn + result)" by simp
  have h2: "\<forall>n. Op_set_default_list ''Groceries'' = Op_set_default_list n \<longrightarrow>
          Inr (R_bool False) \<noteq> (Inr (R_bool True) :: exn + result)" by simp
  from default_persists[OF demo_cleanup h1] default_persists[OF demo_failed_set_default h2]
    demo_cleanup demo_failed_set_default
  show ?thesis by simp
qed

lemma run_body_default_frame:
  assumes "\<forall>n. Op_set_default_list n \<notin> set body"
      and "run_body r body s w = (res, s1, w1)"
  shows "default_list_uuid s1 = default_list_uuid s"
  using assms
proof (induction body arbitrary: s w)
  case Nil
  then show ?case by simp
next
  case (Cons x xs)
  obtain xres s0 w0 where x: "exec r x s w = (xres, s0, w0)"
    by (cases "exec r x s w")
  from Cons.prems(1) have nx: "\<forall>n. x = Op_set_default_list n \<longrightarrow> xres \<noteq> Inr (R_bool True)"
    by auto
  note d0 = exec_default_frame[OF x nx]
  show ?case
  proof (cases xres)
    case (Inl e)
    with Cons.prems(2) x d0 show ?thesis by simp
  next
    case (Inr v)
    with Cons.prems(2) x have "run_body r xs s0 w0 = (res, s1, w1)" by simp
    moreover from Cons.prems(1) have "\<forall>n. Op_set_default_list n \<notin> set xs" by simp
    ultimately have "default_list_uuid s1 = default_list_uuid s0" by (rule Cons.IH[rotated])
    with d0 show ?thesis by simp
  qed
qed

lemma get_list_uuid_unset:
  "default_list_uuid s = None \<Longrightarrow> get_list_uuid None s = Inl no_default_list"
  by (simp add: get_list_uuid_def truthy_def)

lemma set_default_list_True:
  assumes "set_default_list r x s w = (Inr True, s1, w1)"
  shows "\<exists>lst s0. find_list r x s w = (Inr (Some lst), s0, w1)
           \<and> s1 = s0\<lparr>default_list_uuid := Some (listUuid lst)\<rparr>"
  using assms
  by (cases "find_list r x s w")
     (auto simp add: set_default_list_def split: sum.splits option.splits)

text \<open>
  C4. \<open>_get_list_uuid()\<close> raises the no-default \<open>ValueError\<close> while no default is stored,
  which is so in a new session and after any block of operations without
  \<open>set_default_list\<close>. After \<open>set_default_list(x)\<close> has returned \<open>True\<close> the stored default
  is the identifier of the list that \<open>find_list(x)\<close> found, and \<open>_get_list_uuid()\<close> returns
  it. The identifier is assigned by the service and is never the empty string, which is
  the one string that the test \<open>elif self._default_list_uuid:\<close> takes as false.
\<close>

theorem get_list_uuid_default:
  "(default_list_uuid s = None \<longrightarrow> get_list_uuid None s = Inl no_default_list)
   \<and> (\<forall>body res s1 w1.
         (\<forall>n. Op_set_default_list n \<notin> set body)
         \<and> run_body r body new_integration w = (res, s1, w1) \<longrightarrow>
           get_list_uuid None s1 = Inl no_default_list)
   \<and> (\<forall>s1 w1. set_default_list r x s w = (Inr True, s1, w1) \<longrightarrow>
         (\<exists>lst s0. find_list r x s w = (Inr (Some lst), s0, w1)
            \<and> default_list_uuid s1 = Some (listUuid lst)
            \<and> (listUuid lst \<noteq> [] \<longrightarrow> get_list_uuid None s1 = Inr (listUuid lst))))"
proof -
  have a: "default_list_uuid s = None \<longrightarrow> get_list_uuid None s = Inl no_default_list"
    by (simp add: get_list_uuid_unset)
  have b: "\<forall>body res s1 w1.
         (\<forall>n. Op_set_default_list n \<notin> set body)
         \<and> run_body r body new_integration w = (res, s1, w1) \<longrightarrow>
           get_list_uuid None s1 = Inl no_default_list"
  proof (intro allI impI)
    fix body res s1 w1
    assume h: "(\<forall>n. Op_set_default_list n \<notin> set body)
         \<and> run_body r body new_integration w = (res, s1, w1)"
    then have "default_list_uuid s1 = default_list_uuid new_integration"
      using run_body_default_frame by blast
    then have "default_list_uuid s1 = None" by (simp add: new_integration_def)
    then show "get_list_uuid None s1 = Inl no_default_list" by (rule get_list_uuid_unset)
  qed
  have c: "\<forall>s1 w1. set_default_list r x s w = (Inr True, s1, w1) \<longrightarrow>
         (\<exists>lst s0. find_list r x s w = (Inr (Some lst), s0, w1)
            \<and> default_list_uuid s1 = Some (listUuid lst)
            \<and> (listUuid lst \<noteq> [] \<longrightarrow> get_list_uuid None s1 = Inr (listUuid lst)))"
  proof (intro allI impI)
    fix s1 w1
    assume "set_default_list r x s w = (Inr True, s1, w1)"
    from set_default_list_True[OF this] obtain lst s0 where
      f: "find_list r x s w = (Inr (Some lst), s0, w1)"
      and s1: "s1 = s0\<lparr>default_list_uuid := Some (listUuid lst)\<rparr>" by blast
    from s1 have d: "default_list_uuid s1 = Some (listUuid lst)" by simp
    then have "listUuid lst \<noteq> [] \<longrightarrow> get_list_uuid None s1 = Inr (listUuid lst)"
      by (simp add: get_list_uuid_def truthy_def str_of_def)
    with f d show "\<exists>lst s0. find_list r x s w = (Inr (Some lst), s0, w1)
            \<and> default_list_uuid s1 = Some (listUuid lst)
            \<and> (listUuid lst \<noteq> [] \<longrightarrow> get_list_uuid None s1 = Inr (listUuid lst))"
      by blast
  qed
  from a b c show ?thesis by blast
qed

lemma demo_set_default_weekly:
  "set_default_list demo_remote ''weekly'' new_integration world0 =
     (Inr True, chosen, demo_world)"
  by (simp add: eval_defs demo_remote_def chosen_def demo_client_def demo_world_def
      weekly_def party_def)

theorem get_list_uuid_default_witness:
  "default_list_uuid new_integration = None
   \<and> get_list_uuid None new_integration = Inl no_default_list
   \<and> set_default_list demo_remote ''weekly'' new_integration world0 =
       (Inr True, chosen, demo_world)
   \<and> get_list_uuid None chosen = Inr ''a1''"
proof -
  have n: "default_list_uuid new_integration = None" by (simp add: new_integration_def)
  from get_list_uuid_default[of new_integration demo_remote world0 "''weekly''"] n
  have a: "get_list_uuid None new_integration = Inl no_default_list" by blast
  from get_list_uuid_default[of new_integration demo_remote world0 "''weekly''"]
    demo_set_default_weekly
  obtain lst s0 where
    f: "find_list demo_remote ''weekly'' new_integration world0 = (Inr (Some lst), s0, demo_world)"
    and u: "listUuid lst \<noteq> [] \<longrightarrow> get_list_uuid None chosen = Inr (listUuid lst)"
    by blast
  from f demo_find_weekly have "lst = weekly" by simp
  with u have "get_list_uuid None chosen = Inr ''a1''" by (simp add: weekly_def)
  with n a demo_set_default_weekly show ?thesis by blast
qed

subsection \<open>Resolving a list name\<close>

lemma initialize_again:
  assumes "initialize r s w = (Inr u, s1, w1)"
  shows "client s1 \<noteq> None \<and> initialize r s1 w1 = (Inr (), s1, w1)"
  using assms
  by (cases "client s") (auto simp add: initialize_def split: prod.splits)

lemma client_connect_item_calls:
  "client_connect r c w = (res, c1, w1) \<Longrightarrow>
     filter item_call (calls w1) = filter item_call (calls w)"
  by (auto simp add: client_connect_def log_call_def Let_def split: if_splits option.splits)

lemma client_get_lists_item_calls:
  assumes "client_get_lists r force c w = (res, c1, w1)"
  shows "filter item_call (calls w1) = filter item_call (calls w)"
proof -
  obtain eres c0 w0 where e: "ensure_connected r c w = (eres, c0, w0)"
    by (cases "ensure_connected r c w")
  then have k0: "filter item_call (calls w0) = filter item_call (calls w)"
    by (auto simp add: ensure_connected_def split: if_splits dest: client_connect_item_calls)
  have f: "\<And>fres c2 w2. fetch_lists r c0 w0 = (fres, c2, w2) \<Longrightarrow>
      filter item_call (calls w2) = filter item_call (calls w0)"
    by (auto simp add: fetch_lists_def log_call_def Let_def split: sum.splits)
  from assms e have "w1 = w0 \<or> fetch_lists r c0 w0 = (res, c1, w1)"
    by (auto simp add: client_get_lists_def split: sum.splits option.splits if_splits)
  with f k0 show ?thesis by auto
qed

lemma initialize_item_calls:
  "initialize r s w = (res, s1, w1) \<Longrightarrow>
     filter item_call (calls w1) = filter item_call (calls w)"
  by (cases "client s")
     (auto simp add: initialize_def split: prod.splits dest: client_connect_item_calls)

lemma get_lists_Inr:
  assumes "get_lists r s w = (Inr catalog, s1, w1)"
  shows "\<exists>s0 w0 c0 c1. initialize r s w = (Inr (), s0, w0) \<and> client s0 = Some c0
           \<and> client_get_lists r False c0 w0 = (Inr catalog, c1, w1)
           \<and> s1 = s0\<lparr>client := Some c1\<rparr>"
proof -
  obtain ires s0 w0 where i: "initialize r s w = (ires, s0, w0)"
    by (cases "initialize r s w")
  with assms obtain u where u: "ires = Inr u"
    by (cases ires) (auto simp add: get_lists_def)
  with assms i have oc: "on_client (client_get_lists r False) s0 w0 = (Inr catalog, s1, w1)"
    by (simp add: get_lists_def)
  then obtain c0 where c0: "client s0 = Some c0"
    by (cases "client s0") (auto simp add: on_client_def)
  with oc obtain c1 where "client_get_lists r False c0 w0 = (Inr catalog, c1, w1)"
      and "s1 = s0\<lparr>client := Some c1\<rparr>"
    by (cases "client_get_lists r False c0 w0") (auto simp add: on_client_def)
  with i u c0 show ?thesis by auto
qed

lemma get_lists_item_calls:
  assumes "get_lists r s w = (Inr catalog, s1, w1)"
  shows "filter item_call (calls w1) = filter item_call (calls w)"
proof -
  from get_lists_Inr[OF assms] obtain s0 w0 c0 c1 where
    i: "initialize r s w = (Inr (), s0, w0)"
    and g: "client_get_lists r False c0 w0 = (Inr catalog, c1, w1)" by blast
  from initialize_item_calls[OF i] client_get_lists_item_calls[OF g] show ?thesis by simp
qed

lemma with_list_not_found:
  assumes "n \<noteq> []"
      and "get_lists r s w = (Inr catalog, s1, w1)"
      and "\<forall>e \<in> set catalog. str_lower r (get_name e) \<noteq> str_lower r n"
  shows "with_list r (Some n) m s w = (Inl (list_not_found n), s1, w1)"
proof -
  from get_lists_Inr[OF assms(2)] obtain s0 w0 c0 c1 where
    i: "initialize r s w = (Inr (), s0, w0)" and c0: "client s0 = Some c0"
    and g: "client_get_lists r False c0 w0 = (Inr catalog, c1, w1)"
    and s1: "s1 = s0\<lparr>client := Some c1\<rparr>" by blast
  from assms(3) have none: "first_by_name (str_lower r) n catalog = None"
    by (simp add: first_by_name_None)
  from initialize_again[OF i] have i2: "initialize r s0 w0 = (Inr (), s0, w0)" by simp
  from g none have "client_get_list_by_name r n c0 w0 = (Inr None, c1, w1)"
    by (simp add: client_get_list_by_name_def)
  with i2 c0 s1 have f: "find_list r n s0 w0 = (Inr None, s1, w1)"
    by (simp add: find_list_def on_client_def)
  from assms(1) f have "resolve_list r (Some n) s0 w0 = (Inl (list_not_found n), s1, w1)"
    by (simp add: resolve_list_def truthy_def str_of_def)
  with i show ?thesis by (simp add: with_list_def)
qed

text \<open>
  C5, as the code has it. For a non-empty name that no entry of the catalog matches
  (its \<open>str.lower()\<close> is that of no entry's name, whatever the runtime's \<open>str.lower()\<close>
  is), each of \<open>get_items\<close>, \<open>add_item\<close>, \<open>add_items\<close>, \<open>complete_item\<close> and
  \<open>remove_item\<close> raises the \<open>ValueError\<close> that names the list. The state and the requests
  made are those of the catalog lookup alone: nothing is sent to an item endpoint, and
  the stored default, on which nothing here depends, is unchanged.
\<close>

theorem unknown_list_not_found:
  assumes "n \<noteq> []"
      and "get_lists r s w = (Inr catalog, s1, w1)"
      and "\<forall>e \<in> set catalog. str_lower r (get_name e) \<noteq> str_lower r n"
  shows "get_items r (Some n) s w = (Inl (list_not_found n), s1, w1)
       \<and> add_item r item sp (Some n) s w = (Inl (list_not_found n), s1, w1)
       \<and> add_items r items (Some n) s w = (Inl (list_not_found n), s1, w1)
       \<and> complete_item r item (Some n) s w = (Inl (list_not_found n), s1, w1)
       \<and> remove_item r item (Some n) s w = (Inl (list_not_found n), s1, w1)
       \<and> default_list_uuid s1 = default_list_uuid s
       \<and> filter item_call (calls w1) = filter item_call (calls w)"
  using get_lists_default[OF assms(2)] get_lists_item_calls[OF assms(2)]
  by (simp add: get_items_def add_item_def add_items_def complete_item_def remove_item_def
      with_list_not_found[OF assms])

lemma demo_get_lists_chosen:
  "get_lists demo_remote chosen demo_world = (Inr [party, weekly, weekly_dup], chosen, demo_world)"
  by (simp add: eval_defs chosen_def demo_client_def demo_world_def)

theorem unknown_list_not_found_witness:
  "''Groceries'' \<noteq> []
   \<and> get_lists demo_remote chosen demo_world =
       (Inr [party, weekly, weekly_dup], chosen, demo_world)
   \<and> first_by_name (str_lower demo_remote) ''Groceries'' [party, weekly, weekly_dup] = None
   \<and> default_list_uuid chosen = Some ''a1''
   \<and> get_items demo_remote (Some ''Groceries'') chosen demo_world =
       (Inl (list_not_found ''Groceries''), chosen, demo_world)
   \<and> add_item demo_remote ''Milk'' ''1 liter'' (Some ''Groceries'') chosen demo_world =
       (Inl (list_not_found ''Groceries''), chosen, demo_world)"
proof -
  have h1: "''Groceries'' \<noteq> []" by simp
  have none:
    "first_by_name (str_lower demo_remote) ''Groceries'' [party, weekly, weekly_dup] = None"
    by (simp add: demo_remote_def lower_ascii_def lower_c3_def get_name_def party_def
        weekly_def weekly_dup_def)
  then have h3: "\<forall>e \<in> set [party, weekly, weekly_dup].
      str_lower demo_remote (get_name e) \<noteq> str_lower demo_remote ''Groceries''"
    by (simp only: first_by_name_None)
  have d: "default_list_uuid chosen = Some ''a1''" by (simp add: chosen_def)
  from unknown_list_not_found[OF h1 demo_get_lists_chosen h3, of "''Milk''" "''1 liter''"]
    h1 demo_get_lists_chosen none d
  show ?thesis by simp
qed

text \<open>
  A name that differs from a list's name in the case of a letter outside ASCII resolves
  to that list: the item is saved on it.
\<close>

lemma umlaut_add_item:
  "add_item umlaut_remote ''Milk'' [] (Some apfel_query) new_integration world0 =
     (Inr True,
      \<lparr>client = Some \<lparr>connected = True, lists_cache = Some [party, apfel]\<rparr>,
       default_list_uuid = None\<rparr>,
      \<lparr>calls = [Login, Load_lists, Save_item ''d4'' ''Milk'' []], opened = 1, closed = 0\<rparr>)"
  by (simp add: eval_defs add_item_def with_list_def resolve_list_def client_add_item_def
      send_update_def umlaut_remote_def apfel_def apfel_query_def party_def)

text \<open>
  C5 as written covers every name. The empty name matches no entry of the demo catalog,
  yet \<open>get_items("")\<close> does not raise: \<open>if list_name:\<close> is false for it, the stored
  default is used and the items are fetched.
\<close>

theorem unknown_list_empty_name_counterexample:
  "first_by_name (str_lower demo_remote) [] [party, weekly, weekly_dup] = None
   \<and> get_lists demo_remote chosen demo_world =
       (Inr [party, weekly, weekly_dup], chosen, demo_world)
   \<and> get_items demo_remote (Some []) chosen demo_world =
       (Inr \<lparr>purchase = [], recently = []\<rparr>, chosen,
        \<lparr>calls = [Login, Load_lists, Get_list ''a1''], opened = 1, closed = 0\<rparr>)"
  by (simp add: eval_defs get_items_def with_list_def resolve_list_def client_get_items_def
      demo_remote_def chosen_def demo_client_def demo_world_def party_def weekly_def
      weekly_dup_def)

lemma resolve_list_empty_name: "resolve_list r (Some []) s w = resolve_list r None s w"
  by (simp add: resolve_list_def truthy_def)

lemma with_list_empty_name: "with_list r (Some []) m s w = with_list r None m s w"
  by (simp add: with_list_def resolve_list_empty_name split: prod.splits sum.splits)

lemma with_list_no_default:
  assumes "initialize r s w = (Inr (), s1, w1)" and "\<not> truthy (default_list_uuid s)"
  shows "with_list r None m s w = (Inl no_default_list, s1, w1)"
  using assms initialize_default[OF assms(1)]
  by (simp add: with_list_def resolve_list_def get_list_uuid_def truthy_def)

lemma with_list_default_used:
  assumes "initialize r s w = (Inr (), s1, w1)"
      and "default_list_uuid s = Some d" and "d \<noteq> []"
  shows "with_list r None m s w = on_client (m d) s1 w1"
  using assms initialize_default[OF assms(1)]
  by (simp add: with_list_def resolve_list_def get_list_uuid_def truthy_def str_of_def)

lemma client_connect_raises:
  "client_connect r c w = (Inl e, c1, w1) \<Longrightarrow> \<exists>msg. e = ServiceError msg"
  by (auto simp add: client_connect_def Let_def split: if_splits option.splits)

lemma client_get_items_raises:
  "client_get_items r u c w = (Inl e, c1, w1) \<Longrightarrow> \<exists>msg. e = ServiceError msg"
  by (auto simp add: client_get_items_def ensure_connected_def
      split: if_splits sum.splits prod.splits dest: client_connect_raises)

lemma send_update_raises:
  "send_update r k c w = (Inl e, c1, w1) \<Longrightarrow> \<exists>msg. e = ServiceError msg"
  by (auto simp add: send_update_def ensure_connected_def
      split: if_splits sum.splits option.splits prod.splits dest: client_connect_raises)

lemma not_found_is_not_no_default: "list_not_found n \<noteq> no_default_list"
  by (simp add: list_not_found_def no_default_list_def)

lemma with_list_absent_raises:
  assumes m: "\<And>u c w e c1 w1. m u c w = (Inl e, c1, w1) \<Longrightarrow> \<exists>msg. e = ServiceError msg"
  shows "fst (with_list r None m s w) \<noteq> Inl (list_not_found n)"
proof -
  obtain ires s1 w1 where i: "initialize r s w = (ires, s1, w1)"
    by (cases "initialize r s w")
  show ?thesis
  proof (cases ires)
    case (Inl e)
    with i have "\<exists>msg. e = ServiceError msg"
      by (cases "client s")
         (auto simp add: initialize_def split: prod.splits dest: client_connect_raises)
    with i Inl show ?thesis by (auto simp add: with_list_def list_not_found_def)
  next
    case (Inr u)
    show ?thesis
    proof (cases "get_list_uuid None s1")
      case (Inl e)
      then have "e = no_default_list"
        by (auto simp add: get_list_uuid_def split: if_splits)
      with i Inr Inl show ?thesis
        using not_found_is_not_no_default[of n]
        by (auto simp add: with_list_def resolve_list_def truthy_def)
    next
      case inner: (Inr d)
      with i Inr have w: "with_list r None m s w = on_client (m d) s1 w1"
        by (simp add: with_list_def resolve_list_def truthy_def)
      show ?thesis
      proof (cases "client s1")
        case None
        with w show ?thesis by (simp add: on_client_def list_not_found_def)
      next
        case (Some c)
        obtain mres c2 w2 where mr: "m d c w1 = (mres, c2, w2)" by (cases "m d c w1")
        show ?thesis
        proof (cases mres)
          case (Inl e)
          with mr m have "\<exists>msg. e = ServiceError msg" by blast
          with w Some mr Inl show ?thesis by (auto simp add: on_client_def list_not_found_def)
        next
          case (Inr v)
          with w Some mr show ?thesis by (simp add: on_client_def)
        qed
      qed
    qed
  qed
qed

text \<open>
  C9. With the empty string as list name, each of the five item operations does what it
  does with no list name. It never raises the list-not-found error for the empty name;
  once \<open>initialize\<close> has succeeded it raises the no-default error when no usable default
  is stored, and otherwise calls the client's method on the stored default.
\<close>

theorem empty_name_is_absent:
  "get_items r (Some []) s w = get_items r None s w
   \<and> add_item r item sp (Some []) s w = add_item r item sp None s w
   \<and> add_items r items (Some []) s w = add_items r items None s w
   \<and> complete_item r item (Some []) s w = complete_item r item None s w
   \<and> remove_item r item (Some []) s w = remove_item r item None s w
   \<and> fst (get_items r (Some []) s w) \<noteq> Inl (list_not_found [])
   \<and> fst (add_item r item sp (Some []) s w) \<noteq> Inl (list_not_found [])
   \<and> fst (add_items r items (Some []) s w) \<noteq> Inl (list_not_found [])
   \<and> fst (complete_item r item (Some []) s w) \<noteq> Inl (list_not_found [])
   \<and> fst (remove_item r item (Some []) s w) \<noteq> Inl (list_not_found [])
   \<and> (\<forall>s1 w1. initialize r s w = (Inr (), s1, w1) \<and> \<not> truthy (default_list_uuid s) \<longrightarrow>
          get_items r (Some []) s w = (Inl no_default_list, s1, w1)
          \<and> add_item r item sp (Some []) s w = (Inl no_default_list, s1, w1)
          \<and> add_items r items (Some []) s w = (Inl no_default_list, s1, w1)
          \<and> complete_item r item (Some []) s w = (Inl no_default_list, s1, w1)
          \<and> remove_item r item (Some []) s w = (Inl no_default_list, s1, w1))
   \<and> (\<forall>s1 w1 d. initialize r s w = (Inr (), s1, w1) \<and> default_list_uuid s = Some d \<and> d \<noteq> []
          \<longrightarrow>
          get_items r (Some []) s w = on_client (client_get_items r d) s1 w1
          \<and> add_item r item sp (Some []) s w = on_client (client_add_item r d item sp) s1 w1
          \<and> add_items r items (Some []) s w =
              on_client (client_batch_add_items r d (format_items items [])) s1 w1
          \<and> complete_item r item (Some []) s w = on_client (client_complete_item r d item) s1 w1
          \<and> remove_item r item (Some []) s w = on_client (client_remove_item r d item) s1 w1)"
proof -
  have eq: "get_items r (Some []) s w = get_items r None s w
   \<and> add_item r item sp (Some []) s w = add_item r item sp None s w
   \<and> add_items r items (Some []) s w = add_items r items None s w
   \<and> complete_item r item (Some []) s w = complete_item r item None s w
   \<and> remove_item r item (Some []) s w = remove_item r item None s w"
    by (simp add: get_items_def add_item_def add_items_def complete_item_def remove_item_def
        with_list_empty_name)
  have n1: "fst (get_items r None s w) \<noteq> Inl (list_not_found [])"
    unfolding get_items_def by (rule with_list_absent_raises) (rule client_get_items_raises)
  have n2: "fst (add_item r item sp None s w) \<noteq> Inl (list_not_found [])"
    unfolding add_item_def client_add_item_def
    by (rule with_list_absent_raises) (rule send_update_raises)
  have n3: "fst (add_items r items None s w) \<noteq> Inl (list_not_found [])"
    unfolding add_items_def client_batch_add_items_def
    by (rule with_list_absent_raises) (rule send_update_raises)
  have n4: "fst (complete_item r item None s w) \<noteq> Inl (list_not_found [])"
    unfolding complete_item_def client_complete_item_def
    by (rule with_list_absent_raises) (rule send_update_raises)
  have n5: "fst (remove_item r item None s w) \<noteq> Inl (list_not_found [])"
    unfolding remove_item_def client_remove_item_def
    by (rule with_list_absent_raises) (rule send_update_raises)
  have nd: "\<forall>s1 w1. initialize r s w = (Inr (), s1, w1) \<and> \<not> truthy (default_list_uuid s) \<longrightarrow>
          get_items r None s w = (Inl no_default_list, s1, w1)
          \<and> add_item r item sp None s w = (Inl no_default_list, s1, w1)
          \<and> add_items r items None s w = (Inl no_default_list, s1, w1)
          \<and> complete_item r item None s w = (Inl no_default_list, s1, w1)
          \<and> remove_item r item None s w = (Inl no_default_list, s1, w1)"
    by (simp add: get_items_def add_item_def add_items_def complete_item_def remove_item_def
        with_list_no_default)
  have du: "\<forall>s1 w1 d. initialize r s w = (Inr (), s1, w1) \<and> default_list_uuid s = Some d
          \<and> d \<noteq> [] \<longrightarrow>
          get_items r None s w = on_client (client_get_items r d) s1 w1
          \<and> add_item r item sp None s w = on_client (client_add_item r d item sp) s1 w1
          \<and> add_items r items None s w =
              on_client (client_batch_add_items r d (format_items items [])) s1 w1
          \<and> complete_item r item None s w = on_client (client_complete_item r d item) s1 w1
          \<and> remove_item r item None s w = on_client (client_remove_item r d item) s1 w1"
    by (simp add: get_items_def add_item_def add_items_def complete_item_def remove_item_def
        with_list_default_used)
  from eq n1 n2 n3 n4 n5 nd du show ?thesis by simp
qed

lemma demo_initialize_chosen:
  "initialize demo_remote chosen demo_world = (Inr (), chosen, demo_world)"
  by (simp add: initialize_def chosen_def)

lemma demo_initialize_unchosen:
  "initialize demo_remote unchosen demo_world = (Inr (), unchosen, demo_world)"
  by (simp add: initialize_def unchosen_def)

theorem empty_name_is_absent_witness:
  "initialize demo_remote chosen demo_world = (Inr (), chosen, demo_world)
   \<and> default_list_uuid chosen = Some ''a1''
   \<and> get_items demo_remote (Some []) chosen demo_world =
       (Inr \<lparr>purchase = [], recently = []\<rparr>, chosen,
        \<lparr>calls = [Login, Load_lists, Get_list ''a1''], opened = 1, closed = 0\<rparr>)
   \<and> initialize demo_remote unchosen demo_world = (Inr (), unchosen, demo_world)
   \<and> \<not> truthy (default_list_uuid unchosen)
   \<and> add_item demo_remote ''Milk'' [] (Some []) unchosen demo_world =
       (Inl no_default_list, unchosen, demo_world)"
proof -
  have d: "default_list_uuid chosen = Some ''a1''" by (simp add: chosen_def)
  have t: "\<not> truthy (default_list_uuid unchosen)" by (simp add: unchosen_def truthy_def)
  have ne: "''a1'' \<noteq> []" by simp
  have oc: "on_client (client_get_items demo_remote ''a1'') chosen demo_world =
       (Inr \<lparr>purchase = [], recently = []\<rparr>, chosen,
        \<lparr>calls = [Login, Load_lists, Get_list ''a1''], opened = 1, closed = 0\<rparr>)"
    by (simp add: on_client_def client_get_items_def ensure_connected_def log_call_def
        demo_remote_def chosen_def demo_client_def demo_world_def)
  from empty_name_is_absent[of demo_remote chosen demo_world] demo_initialize_chosen d ne
  have "get_items demo_remote (Some []) chosen demo_world =
      on_client (client_get_items demo_remote ''a1'') chosen demo_world" by blast
  with oc have a: "get_items demo_remote (Some []) chosen demo_world =
       (Inr \<lparr>purchase = [], recently = []\<rparr>, chosen,
        \<lparr>calls = [Login, Load_lists, Get_list ''a1''], opened = 1, closed = 0\<rparr>)" by simp
  from empty_name_is_absent[of demo_remote unchosen demo_world "''Milk''" "[]"]
    demo_initialize_unchosen t
  have b: "add_item demo_remote ''Milk'' [] (Some []) unchosen demo_world =
       (Inl no_default_list, unchosen, demo_world)" by blast
  from demo_initialize_chosen d a demo_initialize_unchosen t b show ?thesis by blast
qed

subsection \<open>The batch of add_items\<close>

lemma format_items_acc:
  "format_items items acc = acc @ List.map_filter spec_normalized items"
  by (induction items acc rule: format_items.induct)
     (simp_all add: spec_normalized_def dict_get_def)

lemma map_filter_length:
  "length (List.map_filter spec_normalized items) = length (filter str_or_dict items)"
  by (induction items)
     (auto simp add: spec_normalized_def str_or_dict_def split: pyval.splits)

lemma send_update_connected:
  "connected c \<Longrightarrow> update r (calls w) k = None \<Longrightarrow>
     send_update r k c w = (Inr True, c, w\<lparr>calls := calls w @ [k]\<rparr>)"
  by (simp add: send_update_def ensure_connected_def log_call_def)

text \<open>
  C10. The batch that \<open>add_items\<close> builds is the input with every string and every dict
  replaced by its normal form, in order, and every other element left out: its length is
  the number of strings and dicts in the input, so it may be shorter than the input. When
  the list resolves and the service accepts the request, exactly this batch is sent and
  \<open>True\<close> is returned, whatever was left out.
\<close>

theorem add_items_normalizes:
  "format_items items [] = List.map_filter spec_normalized items
   \<and> length (format_items items []) = length (filter str_or_dict items)
   \<and> length (format_items items []) \<le> length items
   \<and> (\<forall>s1 w1 s2 w2 u c.
         initialize r s w = (Inr (), s1, w1)
         \<and> resolve_list r ln s1 w1 = (Inr u, s2, w2)
         \<and> client s2 = Some c \<and> connected c
         \<and> update r (calls w2) (Batch_update_list u (List.map_filter spec_normalized items)) = None
         \<longrightarrow>
         add_items r items ln s w =
           (Inr True, s2,
            w2\<lparr>calls := calls w2 @
                 [Batch_update_list u (List.map_filter spec_normalized items)]\<rparr>))"
proof -
  have a: "format_items items [] = List.map_filter spec_normalized items"
    by (simp add: format_items_acc)
  have b: "length (format_items items []) = length (filter str_or_dict items)"
    by (simp add: a map_filter_length)
  have c: "length (format_items items []) \<le> length items"
    by (simp add: b)
  have d: "\<forall>s1 w1 s2 w2 u c.
         initialize r s w = (Inr (), s1, w1)
         \<and> resolve_list r ln s1 w1 = (Inr u, s2, w2)
         \<and> client s2 = Some c \<and> connected c
         \<and> update r (calls w2) (Batch_update_list u (List.map_filter spec_normalized items)) = None
         \<longrightarrow>
         add_items r items ln s w =
           (Inr True, s2,
            w2\<lparr>calls := calls w2 @
                 [Batch_update_list u (List.map_filter spec_normalized items)]\<rparr>)"
  proof (intro allI impI)
    fix s1 w1 s2 w2 u c
    assume h: "initialize r s w = (Inr (), s1, w1)
         \<and> resolve_list r ln s1 w1 = (Inr u, s2, w2)
         \<and> client s2 = Some c \<and> connected c
         \<and> update r (calls w2) (Batch_update_list u (List.map_filter spec_normalized items)) = None"
    then have su: "send_update r (Batch_update_list u (List.map_filter spec_normalized items)) c w2 =
        (Inr True, c,
         w2\<lparr>calls := calls w2 @ [Batch_update_list u (List.map_filter spec_normalized items)]\<rparr>)"
      by (simp add: send_update_connected)
    from h have "s2\<lparr>client := Some c\<rparr> = s2" by simp
    with h su show "add_items r items ln s w =
           (Inr True, s2,
            w2\<lparr>calls := calls w2 @
                 [Batch_update_list u (List.map_filter spec_normalized items)]\<rparr>)"
      by (simp add: add_items_def with_list_def on_client_def client_batch_add_items_def a)
  qed
  from a b c d show ?thesis by blast
qed

lemma demo_resolve_chosen:
  "resolve_list demo_remote None chosen demo_world = (Inr ''a1'', chosen, demo_world)"
  by (simp add: resolve_list_def get_list_uuid_def truthy_def str_of_def chosen_def)

lemma mixed_batch_normalized:
  "List.map_filter spec_normalized mixed_batch =
     [[(''itemId'', PyStr ''Eggs'')],
      [(''itemId'', PyStr ''Milk''), (''spec'', PyStr ''1 liter'')],
      [(''itemId'', PyStr ''Bread''), (''spec'', PyStr [])]]"
  by (simp add: spec_normalized_def mixed_batch_def)

theorem add_items_normalizes_witness:
  "initialize demo_remote chosen demo_world = (Inr (), chosen, demo_world)
   \<and> resolve_list demo_remote None chosen demo_world = (Inr ''a1'', chosen, demo_world)
   \<and> client chosen = Some demo_client \<and> connected demo_client
   \<and> length mixed_batch = 5
   \<and> add_items demo_remote mixed_batch None chosen demo_world =
       (Inr True, chosen,
        \<lparr>calls = [Login, Load_lists,
            Batch_update_list ''a1''
              [[(''itemId'', PyStr ''Eggs'')],
               [(''itemId'', PyStr ''Milk''), (''spec'', PyStr ''1 liter'')],
               [(''itemId'', PyStr ''Bread''), (''spec'', PyStr [])]]],
         opened = 1, closed = 0\<rparr>)"
proof -
  have c: "client chosen = Some demo_client" by (simp add: chosen_def)
  have k: "connected demo_client" by (simp add: demo_client_def)
  have u: "update demo_remote (calls demo_world)
      (Batch_update_list ''a1'' (List.map_filter spec_normalized mixed_batch)) = None"
    by (simp add: demo_remote_def)
  have l: "length mixed_batch = 5" by (simp add: mixed_batch_def)
  from add_items_normalizes[of mixed_batch demo_remote chosen demo_world None]
    demo_initialize_chosen demo_resolve_chosen c k u
  have "add_items demo_remote mixed_batch None chosen demo_world =
      (Inr True, chosen,
       demo_world\<lparr>calls := calls demo_world @
          [Batch_update_list ''a1'' (List.map_filter spec_normalized mixed_batch)]\<rparr>)"
    by blast
  then have "add_items demo_remote mixed_batch None chosen demo_world =
       (Inr True, chosen,
        \<lparr>calls = [Login, Load_lists,
            Batch_update_list ''a1''
              [[(''itemId'', PyStr ''Eggs'')],
               [(''itemId'', PyStr ''Milk''), (''spec'', PyStr ''1 liter'')],
               [(''itemId'', PyStr ''Bread''), (''spec'', PyStr [])]]],
         opened = 1, closed = 0\<rparr>)"
    by (simp add: mixed_batch_normalized demo_world_def)
  with demo_initialize_chosen demo_resolve_chosen c k l show ?thesis by blast
qed

subsection \<open>The connection over a session\<close>

lemma keeps_connect: "keeps_sessions (client_connect r)"
  by (auto simp add: keeps_sessions_def client_connect_def open_of_def log_call_def Let_def
      split: if_splits option.splits)

lemma keeps_ensure: "keeps_sessions (ensure_connected r)"
  using keeps_connect[of r]
  by (auto simp add: keeps_sessions_def ensure_connected_def split: if_splits)

lemma keeps_after_ensure:
  assumes "\<And>c0 w0 res c1 w1. body c0 w0 = (res, c1, w1) \<Longrightarrow>
             opened w1 = opened w0 \<and> closed w1 = closed w0 \<and> connected c1 = connected c0"
  shows "keeps_sessions (\<lambda>c w. case ensure_connected r c w of
            (Inl e, c1, w1) \<Rightarrow> (Inl e, c1, w1) | (Inr u, c1, w1) \<Rightarrow> body c1 w1)"
  unfolding keeps_sessions_def
proof (intro allI impI)
  fix c w res c2 w2
  assume run: "(case ensure_connected r c w of
            (Inl e, c1, w1) \<Rightarrow> (Inl e, c1, w1) | (Inr u, c1, w1) \<Rightarrow> body c1 w1) = (res, c2, w2)"
  obtain eres c1 w1 where e: "ensure_connected r c w = (eres, c1, w1)"
    by (cases "ensure_connected r c w")
  with keeps_ensure[of r] have k: "opened w1 + closed w + open_of (Some c)
      = opened w + closed w1 + open_of (Some c1)"
    by (simp add: keeps_sessions_def)
  show "opened w2 + closed w + open_of (Some c) = opened w + closed w2 + open_of (Some c2)"
  proof (cases eres)
    case (Inl x)
    with run e k show ?thesis by simp
  next
    case (Inr u)
    with run e have "body c1 w1 = (res, c2, w2)" by simp
    from assms[OF this] k show ?thesis by (simp add: open_of_def)
  qed
qed

lemma keeps_get_lists: "keeps_sessions (client_get_lists r force)"
proof -
  have "keeps_sessions (\<lambda>c w. case ensure_connected r c w of
            (Inl e, c1, w1) \<Rightarrow> (Inl e, c1, w1)
          | (Inr u, c1, w1) \<Rightarrow>
              (case lists_cache c1 of
                 None \<Rightarrow> fetch_lists r c1 w1
               | Some cached \<Rightarrow>
                   if force then fetch_lists r c1 w1 else (Inr cached, c1, w1)))"
    by (rule keeps_after_ensure)
       (auto simp add: fetch_lists_def log_call_def Let_def
        split: option.splits sum.splits if_splits)
  then show ?thesis by (simp add: keeps_sessions_def client_get_lists_def)
qed

lemma keeps_get_list_by_name: "keeps_sessions (client_get_list_by_name r n)"
  using keeps_get_lists[of r False]
  by (auto simp add: keeps_sessions_def client_get_list_by_name_def
      split: prod.splits sum.splits)

lemma keeps_get_items: "keeps_sessions (client_get_items r u)"
proof -
  have "keeps_sessions (\<lambda>c w. case ensure_connected r c w of
            (Inl e, c1, w1) \<Rightarrow> (Inl e, c1, w1)
          | (Inr x, c1, w1) \<Rightarrow>
              (case get_list r (calls w1) u of
                 Inl msg \<Rightarrow> (Inl (ServiceError msg), c1, log_call (Get_list u) w1)
               | Inr items \<Rightarrow> (Inr items, c1, log_call (Get_list u) w1)))"
    by (rule keeps_after_ensure) (auto simp add: log_call_def split: sum.splits)
  then show ?thesis by (simp add: keeps_sessions_def client_get_items_def)
qed

lemma keeps_send_update: "keeps_sessions (send_update r k)"
proof -
  have "keeps_sessions (\<lambda>c w. case ensure_connected r c w of
            (Inl e, c1, w1) \<Rightarrow> (Inl e, c1, w1)
          | (Inr x, c1, w1) \<Rightarrow>
              (case update r (calls w1) k of
                 Some msg \<Rightarrow> (Inl (ServiceError msg), c1, log_call k w1)
               | None \<Rightarrow> (Inr True, c1, log_call k w1)))"
    by (rule keeps_after_ensure) (auto simp add: log_call_def split: option.splits)
  then show ?thesis by (simp add: keeps_sessions_def send_update_def)
qed

lemma on_client_balanced:
  assumes "keeps_sessions m" and "balanced s w" and "on_client m s w = (res, s1, w1)"
  shows "balanced s1 w1"
proof (cases "client s")
  case None
  with assms(2,3) show ?thesis by (simp add: on_client_def)
next
  case (Some c)
  obtain mres c1 w0 where m: "m c w = (mres, c1, w0)" by (cases "m c w")
  with assms(1) have "opened w0 + closed w + open_of (Some c)
      = opened w + closed w0 + open_of (Some c1)"
    by (simp add: keeps_sessions_def)
  with assms(2,3) Some m show ?thesis by (auto simp add: on_client_def balanced_def)
qed

lemma initialize_balanced:
  assumes "balanced s w" and "initialize r s w = (res, s1, w1)"
  shows "balanced s1 w1"
proof (cases "client s")
  case None
  obtain cres c1 w0 where c: "client_connect r new_client w = (cres, c1, w0)"
    by (cases "client_connect r new_client w")
  with keeps_connect[of r] have "opened w0 + closed w + open_of (Some new_client)
      = opened w + closed w0 + open_of (Some c1)"
    by (simp add: keeps_sessions_def)
  with assms None c show ?thesis
    by (auto simp add: initialize_def balanced_def open_of_def new_client_def)
next
  case (Some c)
  with assms show ?thesis by (simp add: initialize_def)
qed

lemma cleanup_balanced:
  assumes "balanced s w" and "cleanup s w = (s1, w1)"
  shows "client s1 = None \<and> opened w1 = closed w1"
  using assms
  by (cases "client s")
     (auto simp add: cleanup_def client_disconnect_def balanced_def open_of_def
      split: if_splits)

lemma get_lists_balanced:
  assumes "balanced s w" and "get_lists r s w = (res, s2, w2)"
  shows "balanced s2 w2"
proof -
  obtain ires s1 w1 where i: "initialize r s w = (ires, s1, w1)" by (cases "initialize r s w")
  note b1 = initialize_balanced[OF assms(1) i]
  show ?thesis
  proof (cases ires)
    case (Inl e)
    with assms(2) i b1 show ?thesis by (simp add: get_lists_def)
  next
    case (Inr u)
    with assms(2) i have "on_client (client_get_lists r False) s1 w1 = (res, s2, w2)"
      by (simp add: get_lists_def)
    from on_client_balanced[OF keeps_get_lists b1 this] show ?thesis .
  qed
qed

lemma find_list_balanced:
  assumes "balanced s w" and "find_list r n s w = (res, s2, w2)"
  shows "balanced s2 w2"
proof -
  obtain ires s1 w1 where i: "initialize r s w = (ires, s1, w1)" by (cases "initialize r s w")
  note b1 = initialize_balanced[OF assms(1) i]
  show ?thesis
  proof (cases ires)
    case (Inl e)
    with assms(2) i b1 show ?thesis by (simp add: find_list_def)
  next
    case (Inr u)
    with assms(2) i have "on_client (client_get_list_by_name r n) s1 w1 = (res, s2, w2)"
      by (simp add: find_list_def)
    from on_client_balanced[OF keeps_get_list_by_name b1 this] show ?thesis .
  qed
qed

lemma set_default_list_balanced:
  assumes "balanced s w" and "set_default_list r n s w = (res, s2, w2)"
  shows "balanced s2 w2"
proof -
  obtain fres s1 w1 where f: "find_list r n s w = (fres, s1, w1)" by (cases "find_list r n s w")
  note b1 = find_list_balanced[OF assms(1) f]
  from assms(2) f have "client s2 = client s1 \<and> w2 = w1"
    by (auto simp add: set_default_list_def split: sum.splits option.splits)
  with b1 show ?thesis by (simp add: balanced_def)
qed

lemma resolve_list_balanced:
  assumes "balanced s w" and "resolve_list r ln s w = (res, s2, w2)"
  shows "balanced s2 w2"
proof (cases "truthy ln")
  case True
  obtain fres s1 w1 where f: "find_list r (str_of ln) s w = (fres, s1, w1)"
    by (cases "find_list r (str_of ln) s w")
  note b1 = find_list_balanced[OF assms(1) f]
  from assms(2) True f have "s2 = s1 \<and> w2 = w1"
    by (auto simp add: resolve_list_def split: sum.splits option.splits)
  with b1 show ?thesis by simp
next
  case False
  with assms(2) have "s2 = s \<and> w2 = w" by (auto simp add: resolve_list_def split: sum.splits)
  with assms(1) show ?thesis by simp
qed

lemma with_list_balanced:
  assumes k: "\<And>u. keeps_sessions (m u)"
      and "balanced s w" and "with_list r ln m s w = (res, s3, w3)"
  shows "balanced s3 w3"
proof -
  obtain ires s1 w1 where i: "initialize r s w = (ires, s1, w1)" by (cases "initialize r s w")
  note b1 = initialize_balanced[OF assms(2) i]
  show ?thesis
  proof (cases ires)
    case (Inl e)
    with assms(3) i b1 show ?thesis by (simp add: with_list_def)
  next
    case (Inr x)
    obtain rres s2 w2 where rl: "resolve_list r ln s1 w1 = (rres, s2, w2)"
      by (cases "resolve_list r ln s1 w1")
    note b2 = resolve_list_balanced[OF b1 rl]
    show ?thesis
    proof (cases rres)
      case (Inl e)
      with assms(3) i Inr rl b2 show ?thesis by (simp add: with_list_def)
    next
      case inner: (Inr u)
      with assms(3) i Inr rl have "on_client (m u) s2 w2 = (res, s3, w3)"
        by (simp add: with_list_def)
      from on_client_balanced[OF k b2 this] show ?thesis .
    qed
  qed
qed

lemma get_items_balanced:
  "balanced s w \<Longrightarrow> get_items r ln s w = (res, s1, w1) \<Longrightarrow> balanced s1 w1"
  unfolding get_items_def by (rule with_list_balanced[OF keeps_get_items])

lemma format_list_summary_balanced:
  assumes "balanced s w" and "format_list_summary r ln s w = (res, s3, w3)"
  shows "balanced s3 w3"
proof -
  obtain gres s1 w1 where g: "get_items r ln s w = (gres, s1, w1)"
    by (cases "get_items r ln s w")
  note b1 = get_items_balanced[OF assms(1) g]
  show ?thesis
  proof (cases gres)
    case (Inl e)
    with assms(2) g b1 show ?thesis by (simp add: format_list_summary_def)
  next
    case (Inr items)
    show ?thesis
    proof (cases "truthy ln")
      case True
      obtain fres s2 w2 where f: "find_list r (str_of ln) s1 w1 = (fres, s2, w2)"
        by (cases "find_list r (str_of ln) s1 w1")
      from assms(2) g Inr True f have "s3 = s2 \<and> w3 = w2"
        by (auto simp add: format_list_summary_def split: sum.splits)
      with find_list_balanced[OF b1 f] show ?thesis by simp
    next
      case False
      obtain lres s2 w2 where l: "get_lists r s1 w1 = (lres, s2, w2)"
        by (cases "get_lists r s1 w1")
      from assms(2) g Inr False l have "s3 = s2 \<and> w3 = w2"
        by (auto simp add: format_list_summary_def split: sum.splits)
      with get_lists_balanced[OF b1 l] show ?thesis by simp
    qed
  qed
qed

lemma exec_balanced:
  assumes "balanced s w" and "exec r x s w = (res, s1, w1)"
  shows "balanced s1 w1"
proof (cases x)
  case Op_initialize
  with assms show ?thesis by (auto dest!: returning_state dest: initialize_balanced)
next
  case Op_cleanup
  with assms(2) have c: "cleanup s w = (s1, w1)" by (auto split: prod.splits)
  from cleanup_balanced[OF assms(1) c] show ?thesis by (simp add: balanced_def open_of_def)
next
  case Op_get_lists
  with assms show ?thesis by (auto dest!: returning_state dest: get_lists_balanced)
next
  case (Op_find_list n)
  with assms show ?thesis by (auto dest!: returning_state dest: find_list_balanced)
next
  case (Op_set_default_list n)
  with assms show ?thesis by (auto dest!: returning_state dest: set_default_list_balanced)
next
  case (Op_get_items ln)
  with assms show ?thesis by (auto dest!: returning_state dest: get_items_balanced)
next
  case (Op_add_item i sp ln)
  with assms show ?thesis
    by (auto simp add: add_item_def client_add_item_def dest!: returning_state
        dest: with_list_balanced[OF keeps_send_update])
next
  case (Op_add_items items ln)
  with assms show ?thesis
    by (auto simp add: add_items_def client_batch_add_items_def dest!: returning_state
        dest: with_list_balanced[OF keeps_send_update])
next
  case (Op_complete_item i ln)
  with assms show ?thesis
    by (auto simp add: complete_item_def client_complete_item_def dest!: returning_state
        dest: with_list_balanced[OF keeps_send_update])
next
  case (Op_remove_item i ln)
  with assms show ?thesis
    by (auto simp add: remove_item_def client_remove_item_def dest!: returning_state
        dest: with_list_balanced[OF keeps_send_update])
next
  case (Op_format_list_summary ln)
  with assms show ?thesis by (auto dest!: returning_state dest: format_list_summary_balanced)
qed

lemma run_body_balanced:
  "balanced s w \<Longrightarrow> run_body r body s w = (res, s1, w1) \<Longrightarrow> balanced s1 w1"
proof (induction body arbitrary: s w)
  case Nil
  then show ?case by simp
next
  case (Cons x xs)
  obtain xres s0 w0 where x: "exec r x s w = (xres, s0, w0)" by (cases "exec r x s w")
  note b0 = exec_balanced[OF Cons.prems(1) x]
  show ?case
  proof (cases xres)
    case (Inl e)
    with Cons.prems(2) x b0 show ?thesis by simp
  next
    case (Inr v)
    with Cons.prems(2) x have "run_body r xs s0 w0 = (res, s1, w1)" by simp
    from Cons.IH[OF b0 this] show ?thesis .
  qed
qed

text \<open>
  Once \<open>__aenter__\<close> has succeeded, the block \<open>async with\<close> releases the connection on
  every way out, whether its body returns or raises.
\<close>

lemma async_with_releases:
  assumes "balanced s w" and "initialize r s w = (Inr u, s1, w1)"
      and "async_with r body s w = (res, s3, w3)"
  shows "client s3 = None \<and> opened w3 = closed w3"
proof -
  note b1 = initialize_balanced[OF assms(1,2)]
  obtain bres s2 w2 where b: "run_body r body s1 w1 = (bres, s2, w2)"
    by (cases "run_body r body s1 w1")
  note b2 = run_body_balanced[OF b1 b]
  from assms(2,3) b have "cleanup s2 w2 = (s3, w3)"
    by (auto simp add: async_with_def split: prod.splits)
  from cleanup_balanced[OF b2 this] show ?thesis .
qed

text \<open>
  C8 asks that the connection opened at the start of a session be closed on every way out
  of the block \<open>async with\<close>, also when the login raises. That case is missed: \<open>connect\<close>
  opens the session before it awaits the login; the exception leaves \<open>__aenter__\<close>, so
  \<open>__aexit__\<close> and with it \<open>cleanup\<close> never run, and the block is left with one session
  opened and none closed.
\<close>

theorem async_with_login_failure_leaks:
  "async_with locked_remote [Op_get_lists] new_integration world0 =
     (Inl (ServiceError ''401 Unauthorized''),
      \<lparr>client = Some \<lparr>connected = True, lists_cache = None\<rparr>, default_list_uuid = None\<rparr>,
      \<lparr>calls = [Login], opened = 1, closed = 0\<rparr>)"
  by (simp add: async_with_def initialize_def client_connect_def log_call_def Let_def
      locked_remote_def new_integration_def new_client_def world0_def)

end
